theory Spec2Isabelle
  imports Complex_Main "HOL-Library.Word" "HOL-Library.Log_Nat"
begin

text \<open>
  A model of the backend of the URL shortener (the validator of URLs, the generator of
  short codes, the \<open>Database\<close> class over the table \<open>urls\<close> and the handlers of
  \<open>UrlController\<close>), followed by proofs of the properties that its specification
  states.
\<close>

section \<open>JavaScript values used by the URL shortener\<close>

text \<open>
  A JavaScript string is a sequence of UTF-16 code units, and \<open>length\<close> counts code
  units. String literals of the source are ASCII; \<open>js\<close> turns an ASCII literal into
  its code units.
\<close>

type_synonym code_unit = "16 word"
type_synonym jsstring = "code_unit list"

definition js :: "string \<Rightarrow> jsstring" where
  "js s = map of_char s"

text \<open>
  The request fields \<open>url\<close> and \<open>customCode\<close> are typed as strings but arrive from a
  JSON body, and the source tests them with \<open>!x\<close> and \<open>typeof x !== 'string'\<close>. A value is
  therefore a string or any other value, of which only the truthiness is observed
  (\<open>undefined\<close>, \<open>null\<close>, \<open>0\<close> and \<open>false\<close> are falsy).
\<close>

datatype js_value = JString jsstring | JOther bool

fun truthy :: "js_value \<Rightarrow> bool" where
  "truthy (JString s) = (s \<noteq> [])"
| "truthy (JOther b) = b"

abbreviation JUndefined :: js_value where
  "JUndefined \<equiv> JOther False"

section \<open>JavaScript numbers of the list handler\<close>

text \<open>
  A number of the source is an IEEE double. The list handler gets its numbers from
  \<open>parseInt\<close> and computes with them, so each is \<open>NaN\<close>, an infinity, or a finite
  double whose value is an integer; \<open>Num n\<close> is the double with the value \<open>n\<close>. The
  sign of a zero is never observed by the handler.
\<close>

datatype js_number = NaN | PosInfinity | NegInfinity | Num int

text \<open>
  The double nearest to an integer, ties to the even significand: an integer of at most
  53 bits is a double; a longer one loses its low bits.
\<close>

definition round_to_double :: "int \<Rightarrow> int" where
  "round_to_double n =
    (if \<bar>n\<bar> \<le> 2 ^ 53 then n
     else
       (let e = floorlog 2 (nat \<bar>n\<bar>) - 53;
            m = 2 ^ e;
            q = \<bar>n\<bar> div m;
            r = \<bar>n\<bar> mod m;
            q' = (if 2 * r < m \<or> (2 * r = m \<and> even q) then q else q + 1)
        in sgn n * q' * m))"

text \<open>
  The number that an arithmetic operation returns when its exact result is the integer
  \<open>n\<close>: the nearest double, or an infinity when that exceeds the largest double.
\<close>

definition number :: "int \<Rightarrow> js_number" where
  "number n =
    (let d = round_to_double n in
     if 2 ^ 1024 \<le> d then PosInfinity
     else if d \<le> - (2 ^ 1024) then NegInfinity
     else Num d)"

text \<open>\<open>x || d\<close> on numbers: \<open>NaN\<close> and zero are falsy.\<close>

fun truthy_number :: "js_number \<Rightarrow> bool" where
  "truthy_number NaN = False"
| "truthy_number (Num n) = (n \<noteq> 0)"
| "truthy_number x = True"

definition or_default :: "js_number \<Rightarrow> js_number \<Rightarrow> js_number" where
  "or_default v d = (if truthy_number v then v else d)"

text \<open>\<open>x - y\<close>, \<open>x * y\<close> and \<open>x < y\<close>.\<close>

fun js_minus :: "js_number \<Rightarrow> js_number \<Rightarrow> js_number" where
  "js_minus NaN y = NaN"
| "js_minus x NaN = NaN"
| "js_minus (Num a) (Num b) = number (a - b)"
| "js_minus PosInfinity PosInfinity = NaN"
| "js_minus NegInfinity NegInfinity = NaN"
| "js_minus PosInfinity y = PosInfinity"
| "js_minus NegInfinity y = NegInfinity"
| "js_minus x PosInfinity = NegInfinity"
| "js_minus x NegInfinity = PosInfinity"

fun sign_of :: "js_number \<Rightarrow> int" where
  "sign_of NaN = 0"
| "sign_of PosInfinity = 1"
| "sign_of NegInfinity = - 1"
| "sign_of (Num n) = sgn n"

fun js_times :: "js_number \<Rightarrow> js_number \<Rightarrow> js_number" where
  "js_times NaN y = NaN"
| "js_times x NaN = NaN"
| "js_times (Num a) (Num b) = number (a * b)"
| "js_times x y =
    (if sign_of x * sign_of y = 0 then NaN
     else if 0 < sign_of x * sign_of y then PosInfinity
     else NegInfinity)"

fun js_less :: "js_number \<Rightarrow> js_number \<Rightarrow> bool" where
  "js_less NaN y = False"
| "js_less x NaN = False"
| "js_less (Num a) (Num b) = (a < b)"
| "js_less NegInfinity y = (y \<noteq> NegInfinity)"
| "js_less x PosInfinity = (x \<noteq> PosInfinity)"
| "js_less x y = False"

text \<open>
  \<open>Math.ceil(total / limit)\<close>, where \<open>total\<close> is the number of rows of the table. A
  table has fewer than \<open>2^32\<close> rows, as their ids are different values of an
  \<open>INTEGER\<close> column, and for a dividend below \<open>2^53\<close> the rounding of the quotient
  does not change its ceiling.
\<close>

fun ceil_quotient :: "int \<Rightarrow> js_number \<Rightarrow> js_number" where
  "ceil_quotient t NaN = NaN"
| "ceil_quotient t PosInfinity = Num 0"
| "ceil_quotient t NegInfinity = Num 0"
| "ceil_quotient t (Num l) =
    (if l = 0 then (if t = 0 then NaN else if 0 < t then PosInfinity else NegInfinity)
     else Num \<lceil>real_of_int t / real_of_int l\<rceil>)"

section \<open>ShortCodeGenerator.isValidCustomCode\<close>

definition CUSTOM_CODE_MAX_LENGTH :: nat where
  "CUSTOM_CODE_MAX_LENGTH = 20"

definition is_digit :: "code_unit \<Rightarrow> bool" where
  "is_digit c = (0x30 \<le> c \<and> c \<le> 0x39)"

definition is_upper :: "code_unit \<Rightarrow> bool" where
  "is_upper c = (0x41 \<le> c \<and> c \<le> 0x5A)"

definition is_lower :: "code_unit \<Rightarrow> bool" where
  "is_lower c = (0x61 \<le> c \<and> c \<le> 0x7A)"

text \<open>The character class \<open>[a-zA-Z0-9]\<close>.\<close>

definition is_alnum :: "code_unit \<Rightarrow> bool" where
  "is_alnum c = (is_lower c \<or> is_upper c \<or> is_digit c)"

text \<open>\<open>/^[a-zA-Z0-9]+$/.test(code)\<close>: one or more characters, all of the class.\<close>

definition allowedPattern :: "jsstring \<Rightarrow> bool" where
  "allowedPattern code = (code \<noteq> [] \<and> list_all is_alnum code)"

text \<open>
  \<open>toLowerCase\<close> is only ever applied to a string that passed \<open>allowedPattern\<close>; on
  such a string it maps \<open>A-Z\<close> to \<open>a-z\<close> and keeps digits and lower-case letters.
\<close>

definition toLowerCase :: "jsstring \<Rightarrow> jsstring" where
  "toLowerCase s = map (\<lambda>c. if is_upper c then c + 0x20 else c) s"

definition reservedWords :: "jsstring list" where
  "reservedWords = map js [''api'', ''admin'', ''www'', ''app'', ''dashboard'', ''health'', ''status'']"

fun isValidCustomCode :: "js_value \<Rightarrow> bool" where
  "isValidCustomCode (JOther b) = False"
| "isValidCustomCode (JString code) =
    (if code = [] then False
     else if length code < 3 \<or> length code > CUSTOM_CODE_MAX_LENGTH then False
     else if \<not> allowedPattern code then False
     else if toLowerCase code \<in> set reservedWords then False
     else True)"

section \<open>Library calls\<close>

text \<open>
  The source calls three functions of third-party libraries and of the runtime:
  \<^item> \<open>validator.isURL(url, options)\<close>, a predicate on strings that depends on the
    options \<open>protocols\<close> and \<open>require_protocol\<close>, which the source sets;
  \<^item> \<open>new URL(url)\<close>, which returns a URL object or throws (\<open>None\<close>); of the object
    the source reads \<open>hostname\<close> and \<open>toString()\<close>, which is its \<open>href\<close>; the
    specification also speaks of its scheme, the field \<open>protocol\<close>;
  \<^item> \<open>nanoid(n)\<close>, which returns a fresh random string at every call. The random
    outcome is made explicit: \<open>nanoid L k n\<close> is what the \<open>k\<close>-th call made while
    serving a request returns.
  Their code is not part of the repository, so they are parameters of the model, collected
  in a record.
\<close>

record URL =
  protocol :: jsstring
  hostname :: jsstring
  href :: jsstring

record isURL_options =
  protocols :: "jsstring list"
  require_protocol :: bool

record libs =
  validator_isURL :: "jsstring \<Rightarrow> isURL_options \<Rightarrow> bool"
  new_URL :: "jsstring \<Rightarrow> URL option"
  nanoid :: "nat \<Rightarrow> nat \<Rightarrow> jsstring"

section \<open>UrlValidator\<close>

definition startsWith :: "jsstring \<Rightarrow> jsstring \<Rightarrow> bool" where
  "startsWith s p = (take (length p) s = p)"

text \<open>
  The \<open>try\<close>/\<open>catch\<close> around \<open>new URL(url)\<close> turns a throw into \<open>false\<close>. The first
  test rejects a falsy value and a value that is not a string.
\<close>

fun isValidUrl :: "libs \<Rightarrow> js_value \<Rightarrow> bool" where
  "isValidUrl L (JOther b) = False"
| "isValidUrl L (JString url) =
    (if url = [] then False
     else if \<not> validator_isURL L url
                 \<lparr>protocols = [js ''http'', js ''https''], require_protocol = True\<rparr>
     then False
     else (case new_URL L url of
             None \<Rightarrow> False
           | Some urlObj \<Rightarrow>
               (let hostname = hostname urlObj in
                if hostname = js ''localhost'' \<or>
                   hostname = js ''127.0.0.1'' \<or>
                   startsWith hostname (js ''192.168.'') \<or>
                   startsWith hostname (js ''10.'') \<or>
                   startsWith hostname (js ''172.'')
                then False
                else True)))"

text \<open>
  \<open>s.replace(/\/$/, '')\<close>: the pattern has no flag, so \<open>$\<close> is the end of the input
  and at most one match, the final character, is replaced.
\<close>

definition replace_trailing_slash :: "jsstring \<Rightarrow> jsstring" where
  "replace_trailing_slash s = (if s \<noteq> [] \<and> last s = 0x2F then butlast s else s)"

definition normalizeUrl :: "libs \<Rightarrow> jsstring \<Rightarrow> jsstring" where
  "normalizeUrl L url =
    (case new_URL L url of
       Some urlObj \<Rightarrow> replace_trailing_slash (href urlObj)
     | None \<Rightarrow> url)"

text \<open>
  Modelled from the spec: what \<open>validator.isURL\<close>, a third-party library whose code is
  not in the repository, does with the option \<open>protocols\<close>. The specification says
  that only absolute URLs with the scheme http or https, the protocols that the source
  passes, are accepted and that the scheme is required: a string that the library accepts
  with a required protocol has, when \<open>new URL\<close> parses it, one of the given protocols
  as its scheme.
\<close>

definition honours_protocols :: "libs \<Rightarrow> bool" where
  "honours_protocols L =
    (\<forall>s options u.
       validator_isURL L s options \<and> require_protocol options \<and> new_URL L s = Some u \<longrightarrow>
       (\<exists>p\<in>set (protocols options). protocol u = p @ js '':''))"

text \<open>
  The characterisation of \<open>isValidUrl\<close> in the words of the specification, for
  comparison with the function above: the string parses as an absolute URL whose scheme
  is http or https and whose host is none of the excluded ones.
\<close>

definition claimed_isValidUrl :: "libs \<Rightarrow> jsstring \<Rightarrow> bool" where
  "claimed_isValidUrl L s =
    (case new_URL L s of
       None \<Rightarrow> False
     | Some u \<Rightarrow>
         (protocol u = js ''http:'' \<or> protocol u = js ''https:'') \<and>
         hostname u \<noteq> js ''localhost'' \<and>
         hostname u \<noteq> js ''127.0.0.1'' \<and>
         \<not> startsWith (hostname u) (js ''192.168.'') \<and>
         \<not> startsWith (hostname u) (js ''10.'') \<and>
         \<not> startsWith (hostname u) (js ''172.''))"

section \<open>ShortCodeGenerator.generate\<close>

definition DEFAULT_LENGTH :: nat where
  "DEFAULT_LENGTH = 6"

text \<open>
  \<open>generate(length = DEFAULT_LENGTH)\<close>: the argument is optional, and \<open>k\<close> counts the
  calls of \<open>nanoid\<close> made so far.
\<close>

definition generate :: "libs \<Rightarrow> nat \<Rightarrow> nat option \<Rightarrow> jsstring" where
  "generate L k len =
    nanoid L k (case len of None \<Rightarrow> DEFAULT_LENGTH | Some n \<Rightarrow> n)"

text \<open>The characters with the codes from \<open>lo\<close> to \<open>hi\<close>.\<close>

definition char_range :: "nat \<Rightarrow> nat \<Rightarrow> jsstring" where
  "char_range lo hi = map of_nat [lo..<Suc hi]"

text \<open>
  Modelled from the spec: the alphabet of \<open>nanoid\<close>, a third-party library whose code
  is not in the repository. The specification describes it as URL-safe, with 64
  characters: upper-case and lower-case letters, digits, hyphen and underscore.
\<close>

definition urlAlphabet :: jsstring where
  "urlAlphabet =
     char_range 0x41 0x5A @ char_range 0x61 0x7A @ char_range 0x30 0x39 @ [0x2D, 0x5F]"

text \<open>
  Modelled from the spec: the function \<open>nanoid\<close> of the same library, which
  \<open>generate\<close> calls. The specification says that the result is a random string of
  exactly the requested number of characters, drawn from the alphabet. The random source
  is a sequence of numbers, one per character.
\<close>

definition nanoid_spec :: "(nat \<Rightarrow> nat) \<Rightarrow> nat \<Rightarrow> jsstring" where
  "nanoid_spec rnd n = map (\<lambda>i. urlAlphabet ! (rnd i mod 64)) [0..<n]"

section \<open>The table \<open>urls\<close> and the Database class\<close>

text \<open>
  \<open>initDatabase\<close> creates the table
  \<^verbatim>\<open>urls (id SERIAL PRIMARY KEY, original_url VARCHAR(2048) NOT NULL,
        short_code VARCHAR(50) UNIQUE NOT NULL,
        created_at TIMESTAMP WITH TIME ZONE DEFAULT CURRENT_TIMESTAMP,
        click_count INTEGER DEFAULT 0,
        updated_at TIMESTAMP WITH TIME ZONE DEFAULT CURRENT_TIMESTAMP)\<close>.
  The state of the store is the list of its rows, in insertion order; a freshly created
  table is the empty list. A timestamp is an integer number of time units since the
  epoch. Strings are taken to be values that the two character columns can hold. Requests
  are served one after the other; a lost connection to the server is not modelled.
\<close>

record url_row =
  row_id :: int
  original_url :: jsstring
  short_code :: jsstring
  created_at :: int
  click_count :: int
  updated_at :: int

type_synonym database = "url_row list"

definition initDatabase :: database where
  "initDatabase = []"

text \<open>
  The interface \<open>Url\<close>, and \<open>Omit<Url, 'id' | 'createdAt'>\<close>, the argument of
  \<open>createUrl\<close>. The field \<open>id\<close> is called \<open>url_id\<close> here.
\<close>

record NewUrl =
  originalUrl :: jsstring
  shortCode :: jsstring
  clickCount :: int

record Url = NewUrl +
  url_id :: int
  createdAt :: int

text \<open>Every method of the class builds its result from a row in the same way.\<close>

definition row_to_Url :: "url_row \<Rightarrow> Url" where
  "row_to_Url row =
    \<lparr>originalUrl = original_url row, shortCode = short_code row,
     clickCount = click_count row, url_id = row_id row, createdAt = created_at row\<rparr>"

text \<open>
  A query that the server rejects makes \<open>client.query\<close> throw, and the method throws in
  turn. The column \<open>click_count\<close> has the type \<open>INTEGER\<close>, 32 bits and signed, whose
  arithmetic fails on overflow with \<open>numeric_value_out_of_range\<close>.
\<close>

datatype db_error =
    unique_violation
  | numeric_value_out_of_range
  | invalid_row_count
  | invalid_text_representation

definition INT4_MAX :: int where
  "INT4_MAX = 2147483647"

definition INT4_MIN :: int where
  "INT4_MIN = - 2147483648"

text \<open>
  The values that the server supplies to an \<open>INSERT\<close>: the next value of the sequence
  behind \<open>id SERIAL\<close> and the current time.
\<close>

record pg_env =
  nextval :: int
  current_timestamp :: int

definition Database_createUrl :: "database \<Rightarrow> pg_env \<Rightarrow> NewUrl \<Rightarrow> db_error + (Url \<times> database)" where
  "Database_createUrl db env url =
    (if clickCount url < INT4_MIN \<or> INT4_MAX < clickCount url then Inl numeric_value_out_of_range
     else if nextval env \<in> set (map row_id db) \<or> shortCode url \<in> set (map short_code db)
     then Inl unique_violation
     else
       (let row = \<lparr>row_id = nextval env, original_url = originalUrl url,
                   short_code = shortCode url, created_at = current_timestamp env,
                   click_count = clickCount url, updated_at = current_timestamp env\<rparr>
        in Inr (row_to_Url row, db @ [row])))"

definition Database_getUrlByShortCode :: "database \<Rightarrow> jsstring \<Rightarrow> Url option" where
  "Database_getUrlByShortCode db code =
    (case filter (\<lambda>row. short_code row = code) db of
       [] \<Rightarrow> None
     | row # rest \<Rightarrow> Some (row_to_Url row))"

text \<open>
  \<open>ORDER BY created_at DESC LIMIT $1 OFFSET $2\<close>. The driver sends a number as its
  decimal text, and the server reads \<open>LIMIT\<close> and \<open>OFFSET\<close> as 64-bit integers: it
  rejects a text that is not an integer (\<open>NaN\<close>, \<open>Infinity\<close>), a value of \<open>2^63\<close> or
  more, and a negative value. The text of a double above \<open>2^53\<close> can differ from it in
  the low digits; as a table has fewer than \<open>2^32\<close> rows, such a \<open>LIMIT\<close> or
  \<open>OFFSET\<close> exceeds the size of the table either way. The order of rows with equal
  \<open>created_at\<close> is the server's choice; here they keep their insertion order.
\<close>

definition INT8_MAX :: int where
  "INT8_MAX = 9223372036854775807"

definition Database_getAllUrls :: "database \<Rightarrow> js_number \<Rightarrow> js_number \<Rightarrow> db_error + (Url list \<times> int)" where
  "Database_getAllUrls db limit offset =
    (let total = int (length db) in
     case (limit, offset) of
       (Num l, Num off) \<Rightarrow>
         if l < 0 \<or> off < 0 then Inl invalid_row_count
         else if INT8_MAX < l \<or> INT8_MAX < off then Inl numeric_value_out_of_range
         else
           (let rows = take (nat l) (drop (nat off) (sort_key (\<lambda>row. - created_at row) db));
                urls = map row_to_Url rows
            in Inr (urls, total))
     | _ \<Rightarrow> Inl invalid_text_representation)"

text \<open>
  \<open>UPDATE urls SET click_count = click_count + 1 WHERE short_code = $1 RETURNING ...\<close>:
  every row with the code is updated, the statement fails as a whole when an addition
  overflows, and the method returns the first updated row, or \<open>null\<close>.
\<close>

definition Database_incrementClickCount :: "database \<Rightarrow> jsstring \<Rightarrow> db_error + (Url option \<times> database)" where
  "Database_incrementClickCount db code =
    (if list_ex (\<lambda>row. short_code row = code \<and> INT4_MAX < click_count row + 1) db
     then Inl numeric_value_out_of_range
     else
       (let db' = map (\<lambda>row. if short_code row = code
                               then row\<lparr>click_count := click_count row + 1\<rparr> else row) db
        in case filter (\<lambda>row. short_code row = code) db' of
             [] \<Rightarrow> Inr (None, db')
           | row # rest \<Rightarrow> Inr (Some (row_to_Url row), db')))"

text \<open>\<open>DELETE FROM urls WHERE short_code = $1\<close>; the result is \<open>rowCount > 0\<close>.\<close>

definition Database_deleteUrl :: "database \<Rightarrow> jsstring \<Rightarrow> bool \<times> database" where
  "Database_deleteUrl db code =
    (let rowCount = length (filter (\<lambda>row. short_code row = code) db)
     in (rowCount > 0, filter (\<lambda>row. short_code row \<noteq> code) db))"

section \<open>UrlController\<close>

text \<open>
  What the handlers read of an Express request: the two fields of the JSON body,
  \<open>req.protocol\<close>, \<open>req.get('host')\<close> (which may be \<open>undefined\<close>), the route parameter
  \<open>shortCode\<close>, and the results of \<open>parseInt\<close> on the query parameters \<open>page\<close> and
  \<open>limit\<close>.
\<close>

record request =
  body_url :: js_value
  body_customCode :: js_value
  req_protocol :: jsstring
  req_host :: "jsstring option"
  param_shortCode :: jsstring
  query_page :: js_number
  query_limit :: js_number

datatype error_message =
    URL_is_required
  | Invalid_URL_format
  | Invalid_custom_code
  | Custom_code_already_exists
  | Unable_to_generate_unique_short_code
  | Internal_server_error
  | Short_code_is_required
  | URL_not_found

text \<open>The field \<open>total\<close> of the pagination object is called \<open>total_count\<close> here.\<close>

record pagination =
  page :: js_number
  limit :: js_number
  total_count :: int
  totalPages :: js_number
  hasNext :: bool
  hasPrev :: bool

text \<open>
  The JSON bodies: \<open>{success: false, error}\<close>; the data of a created URL (\<open>id\<close>,
  \<open>originalUrl\<close>, \<open>shortCode\<close>, \<open>shortUrl\<close>, \<open>createdAt\<close>); the list of URLs, each with
  its \<open>shortUrl\<close>, and the pagination; one URL with its \<open>shortUrl\<close>; the message of a
  deletion.
\<close>

datatype json_body =
    Failure error_message
  | Created int jsstring jsstring jsstring int
  | UrlList "(Url \<times> jsstring) list" pagination
  | UrlStats Url jsstring
  | Deleted

text \<open>
  A response is \<open>res.status(n).json(body)\<close> (\<open>res.json(body)\<close> has status 200),
  \<open>res.redirect(n, url)\<close>, or \<open>res.status(404).send(...)\<close> with the fixed HTML page.
\<close>

datatype response =
    Json nat json_body
  | Redirect nat jsstring
  | NotFoundPage nat

text \<open>A value inside a template literal: \<open>undefined\<close> prints as its name.\<close>

definition template :: "jsstring option \<Rightarrow> jsstring" where
  "template v = (case v of None \<Rightarrow> js ''undefined'' | Some s \<Rightarrow> s)"

definition baseUrl :: "request \<Rightarrow> jsstring" where
  "baseUrl req = req_protocol req @ js ''://'' @ template (req_host req)"

text \<open>
  The string of a request field. It is applied only after \<open>isValidUrl\<close> or
  \<open>isValidCustomCode\<close> has accepted the field, which is then a string.
\<close>

fun string_of :: "js_value \<Rightarrow> jsstring" where
  "string_of (JString s) = s"
| "string_of (JOther b) = []"

definition maxAttempts :: nat where
  "maxAttempts = 10"

text \<open>
  The \<open>do ... while (attempts < maxAttempts)\<close> loop of \<open>createShortUrl\<close>. It returns the
  last generated code and the final value of \<open>attempts\<close>, which is also the number of
  codes generated before the current one.
\<close>

function generate_loop :: "libs \<Rightarrow> database \<Rightarrow> nat \<Rightarrow> jsstring \<times> nat" where
  "generate_loop L db attempts =
    (let code = generate L attempts None in
     case Database_getUrlByShortCode db code of
       None \<Rightarrow> (code, attempts)
     | Some existing \<Rightarrow>
         if attempts + 1 < maxAttempts then generate_loop L db (attempts + 1)
         else (code, attempts + 1))"
  by pat_completeness auto
termination
  by (relation "measure (\<lambda>(L, db, attempts). maxAttempts - attempts)") auto

declare generate_loop.simps [simp del]

text \<open>
  The end of \<open>createShortUrl\<close>, shared by both ways of choosing the code: insert the
  record with \<open>clickCount: 0\<close> and answer 201; an exception of the store is caught and
  answered with 500.
\<close>

definition createUrlRecord :: "pg_env \<Rightarrow> request \<Rightarrow> database \<Rightarrow> jsstring \<Rightarrow> jsstring \<Rightarrow> response \<times> database" where
  "createUrlRecord env req db normalizedUrl code =
    (case Database_createUrl db env
            \<lparr>originalUrl = normalizedUrl, shortCode = code, clickCount = 0\<rparr> of
       Inl error \<Rightarrow> (Json 500 (Failure Internal_server_error), db)
     | Inr (urlRecord, db') \<Rightarrow>
         (let shortUrl = baseUrl req @ js ''/'' @ code
          in (Json 201 (Created (url_id urlRecord) (originalUrl urlRecord)
                          (shortCode urlRecord) shortUrl (createdAt urlRecord)), db')))"

definition UrlController_createShortUrl :: "libs \<Rightarrow> pg_env \<Rightarrow> request \<Rightarrow> database \<Rightarrow> response \<times> database" where
  "UrlController_createShortUrl L env req db =
    (let url = body_url req; customCode = body_customCode req in
     if \<not> truthy url then (Json 400 (Failure URL_is_required), db)
     else if \<not> isValidUrl L url then (Json 400 (Failure Invalid_URL_format), db)
     else
       (let normalizedUrl = normalizeUrl L (string_of url) in
        if truthy customCode then
          (if \<not> isValidCustomCode customCode
           then (Json 400 (Failure Invalid_custom_code), db)
           else (case Database_getUrlByShortCode db (string_of customCode) of
                   Some existingUrl \<Rightarrow> (Json 409 (Failure Custom_code_already_exists), db)
                 | None \<Rightarrow> createUrlRecord env req db normalizedUrl (string_of customCode)))
        else
          (case generate_loop L db 0 of
             (code, attempts) \<Rightarrow>
               if attempts \<ge> maxAttempts
               then (Json 500 (Failure Unable_to_generate_unique_short_code), db)
               else createUrlRecord env req db normalizedUrl code)))"

definition UrlController_redirectToOriginalUrl :: "request \<Rightarrow> database \<Rightarrow> response \<times> database" where
  "UrlController_redirectToOriginalUrl req db =
    (let code = param_shortCode req in
     if code = [] then (Json 400 (Failure Short_code_is_required), db)
     else
       (case Database_getUrlByShortCode db code of
          None \<Rightarrow> (NotFoundPage 404, db)
        | Some urlRecord \<Rightarrow>
            (case Database_incrementClickCount db code of
               Inl error \<Rightarrow> (Json 500 (Failure Internal_server_error), db)
             | Inr (updated, db') \<Rightarrow> (Redirect 301 (originalUrl urlRecord), db'))))"

definition UrlController_getAllUrls :: "request \<Rightarrow> database \<Rightarrow> response \<times> database" where
  "UrlController_getAllUrls req db =
    (let page = or_default (query_page req) (Num 1);
         limit = or_default (query_limit req) (Num 50);
         offset = js_times (js_minus page (Num 1)) limit
     in case Database_getAllUrls db limit offset of
          Inl error \<Rightarrow> (Json 500 (Failure Internal_server_error), db)
        | Inr (urls, total') \<Rightarrow>
            (let urlsWithShortUrl = map (\<lambda>url. (url, baseUrl req @ js ''/'' @ shortCode url)) urls
             in (Json 200 (UrlList urlsWithShortUrl
                   \<lparr>page = page, limit = limit, total_count = total',
                    totalPages = ceil_quotient total' limit,
                    hasNext = js_less (js_times page limit) (Num total'),
                    hasPrev = js_less (Num 1) page\<rparr>), db)))"

definition UrlController_deleteUrl :: "request \<Rightarrow> database \<Rightarrow> response \<times> database" where
  "UrlController_deleteUrl req db =
    (let code = param_shortCode req in
     if code = [] then (Json 400 (Failure Short_code_is_required), db)
     else
       (case Database_deleteUrl db code of
          (deleted, db') \<Rightarrow>
            if \<not> deleted then (Json 404 (Failure URL_not_found), db')
            else (Json 200 Deleted, db')))"

definition UrlController_getUrlStats :: "request \<Rightarrow> database \<Rightarrow> response \<times> database" where
  "UrlController_getUrlStats req db =
    (let code = param_shortCode req in
     if code = [] then (Json 400 (Failure Short_code_is_required), db)
     else
       (case Database_getUrlByShortCode db code of
          None \<Rightarrow> (Json 404 (Failure URL_not_found), db)
        | Some urlRecord \<Rightarrow>
            (Json 200 (UrlStats urlRecord (baseUrl req @ js ''/'' @ shortCode urlRecord)), db)))"

section \<open>Sequences of store operations\<close>

text \<open>
  One operation of the store takes the table from \<open>db\<close> to \<open>db'\<close>: a successful
  \<open>createUrl\<close>, \<open>incrementClickCount\<close> or \<open>deleteUrl\<close>; a read, or an operation that
  throws, leaves the table as it is. A reachable state is one that operations produce
  from the empty table.
\<close>

inductive store_step :: "database \<Rightarrow> database \<Rightarrow> bool" where
  step_create: "Database_createUrl db env url = Inr (created, db') \<Longrightarrow> store_step db db'"
| step_increment: "Database_incrementClickCount db code = Inr (updated, db') \<Longrightarrow> store_step db db'"
| step_delete: "Database_deleteUrl db code = (deleted, db') \<Longrightarrow> store_step db db'"
| step_read: "store_step db db"

inductive reachable :: "database \<Rightarrow> bool" where
  reachable_init: "reachable initDatabase"
| reachable_step: "reachable db \<Longrightarrow> store_step db db' \<Longrightarrow> reachable db'"

section \<open>Example values\<close>

text \<open>
  A request for \<open>https://example.com\<close> without a custom code, the values that the
  server supplies to an insertion, and tables whose \<open>k\<close>-th row holds the \<open>k\<close>-th
  generated code of the example.
\<close>

definition example_env :: pg_env where
  "example_env = \<lparr>nextval = 11, current_timestamp = 2000\<rparr>"

definition example_request :: request where
  "example_request =
    \<lparr>body_url = JString (js ''https://example.com''), body_customCode = JUndefined,
     req_protocol = js ''https'', req_host = Some (js ''sho.rt''),
     param_shortCode = js ''AAAAAA'', query_page = Num 2, query_limit = Num 3\<rparr>"

definition example_row :: "nat \<Rightarrow> url_row" where
  "example_row k =
    \<lparr>row_id = int k + 1, original_url = js ''https://example.com'',
     short_code = replicate 6 (of_nat (0x41 + k)), created_at = 1000 + int k,
     click_count = 0, updated_at = 1000 + int k\<rparr>"

definition example_db :: "nat \<Rightarrow> database" where
  "example_db n = map example_row [0..<n]"

text \<open>
  The answers of the library calls on the strings used as examples.
  \<open>validator.isURL\<close> requires a host name with a top-level domain (its option
  \<open>require_tld\<close> is on unless switched off), so it rejects \<open>http://intranet\<close>, which
  \<open>new URL\<close> parses. The \<open>k\<close>-th generated code of the example is the \<open>k\<close>-th
  upper-case letter, repeated.
\<close>

definition example_isURL :: "jsstring \<Rightarrow> isURL_options \<Rightarrow> bool" where
  "example_isURL s options =
    (s = js ''https://example.com'' \<and> js ''https'' \<in> set (protocols options))"

definition example_new_URL :: "jsstring \<Rightarrow> URL option" where
  "example_new_URL s =
    map_of
      [(js ''https://example.com'',
          \<lparr>protocol = js ''https:'', hostname = js ''example.com'',
           href = js ''https://example.com/''\<rparr>),
       (js ''https://example.com//'',
          \<lparr>protocol = js ''https:'', hostname = js ''example.com'',
           href = js ''https://example.com//''\<rparr>),
       (js ''http://intranet'',
          \<lparr>protocol = js ''http:'', hostname = js ''intranet'',
           href = js ''http://intranet/''\<rparr>)] s"

definition example_libs :: libs where
  "example_libs =
    \<lparr>validator_isURL = example_isURL,
     new_URL = example_new_URL,
     nanoid = (\<lambda>k n. replicate n (of_nat (0x41 + k)))\<rparr>"

text \<open>
  A table whose only record has the largest click count that the column can hold, and a
  request with the custom code \<open>github\<close> for a table that already has it.
\<close>

definition saturated_db :: database where
  "saturated_db = [(example_row 0)\<lparr>click_count := INT4_MAX\<rparr>]"

definition github_request :: request where
  "github_request = example_request\<lparr>body_customCode := JString (js ''github'')\<rparr>"

definition github_db :: database where
  "github_db = [(example_row 0)\<lparr>short_code := js ''github''\<rparr>]"

text \<open>
  Requests for the list whose numbers leave the range of \<open>LIMIT\<close> and \<open>OFFSET\<close>:
  \<open>?page=1&limit=9223372036854775808\<close>, a limit of \<open>2^63\<close>, and
  \<open>?page=4294967296&limit=4294967296\<close>, where the offset is \<open>2^64 - 2^32\<close>.
\<close>

definition huge_limit_request :: request where
  "huge_limit_request =
    example_request\<lparr>query_page := Num 1, query_limit := Num 9223372036854775808\<rparr>"

definition huge_offset_request :: request where
  "huge_offset_request =
    example_request\<lparr>query_page := Num 4294967296, query_limit := Num 4294967296\<rparr>"

section \<open>Auxiliary facts\<close>

lemma js_simps: "js [] = []" "js (c # cs) = of_char c # js cs"
  by (simp_all add: js_def)

lemma getUrlByShortCode_None_iff:
  "Database_getUrlByShortCode db code = None \<longleftrightarrow> code \<notin> set (map short_code db)"
proof (cases "filter (\<lambda>row. short_code row = code) db")
  case Nil
  then show ?thesis
    by (auto simp: Database_getUrlByShortCode_def filter_empty_conv)
next
  case (Cons row rest)
  then have "row \<in> set (filter (\<lambda>row. short_code row = code) db)" by simp
  then have "code \<in> set (map short_code db)" by auto
  with Cons show ?thesis
    by (simp add: Database_getUrlByShortCode_def)
qed

subsection \<open>The generation loop\<close>

lemma generate_loop_first_free:
  assumes "attempts \<le> k" "k < maxAttempts"
    and "Database_getUrlByShortCode db (generate L k None) = None"
    and "\<And>j. attempts \<le> j \<Longrightarrow> j < k \<Longrightarrow> Database_getUrlByShortCode db (generate L j None) \<noteq> None"
  shows "generate_loop L db attempts = (generate L k None, k)"
  using assms
proof (induction "k - attempts" arbitrary: attempts)
  case 0
  then have "attempts = k" by simp
  with 0 show ?case by (simp add: generate_loop.simps)
next
  case (Suc d)
  then have lt: "attempts < k" by simp
  then have coll: "Database_getUrlByShortCode db (generate L attempts None) \<noteq> None"
    using Suc.prems(4) by simp
  have "generate_loop L db (attempts + 1) = (generate L k None, k)"
    using Suc by (intro Suc.hyps(1)) auto
  with coll lt Suc.prems(2) show ?case
    by (subst generate_loop.simps) (auto split: option.splits)
qed

lemma generate_loop_exhausted:
  assumes "attempts < maxAttempts"
    and "\<And>j. attempts \<le> j \<Longrightarrow> j < maxAttempts \<Longrightarrow> Database_getUrlByShortCode db (generate L j None) \<noteq> None"
  shows "snd (generate_loop L db attempts) = maxAttempts"
  using assms
proof (induction "maxAttempts - attempts" arbitrary: attempts)
  case 0
  then show ?case by simp
next
  case (Suc d)
  have coll: "Database_getUrlByShortCode db (generate L attempts None) \<noteq> None"
    using Suc.prems by simp
  show ?case
  proof (cases "attempts + 1 < maxAttempts")
    case True
    then have "snd (generate_loop L db (attempts + 1)) = maxAttempts"
      using Suc by (intro Suc.hyps(1)) auto
    with coll True show ?thesis
      by (subst generate_loop.simps) (auto split: option.splits)
  next
    case False
    with Suc.prems(1) have "attempts + 1 = maxAttempts" by simp
    with coll show ?thesis
      by (subst generate_loop.simps) (auto split: option.splits)
  qed
qed

lemma generate_loop_exhausted_iff:
  "maxAttempts \<le> snd (generate_loop L db 0) \<longleftrightarrow>
     (\<forall>k<maxAttempts. Database_getUrlByShortCode db (generate L k None) \<noteq> None)"
proof
  assume all: "\<forall>k<maxAttempts. Database_getUrlByShortCode db (generate L k None) \<noteq> None"
  have "snd (generate_loop L db 0) = maxAttempts"
    by (rule generate_loop_exhausted) (use all in \<open>auto simp: maxAttempts_def\<close>)
  then show "maxAttempts \<le> snd (generate_loop L db 0)" by simp
next
  assume ex: "maxAttempts \<le> snd (generate_loop L db 0)"
  show "\<forall>k<maxAttempts. Database_getUrlByShortCode db (generate L k None) \<noteq> None"
  proof (rule ccontr)
    assume "\<not> ?thesis"
    then have "\<exists>k. k < maxAttempts \<and> Database_getUrlByShortCode db (generate L k None) = None"
      by auto
    then obtain k where k: "k < maxAttempts \<and> Database_getUrlByShortCode db (generate L k None) = None"
      and least: "\<And>j. j < k \<Longrightarrow> \<not> (j < maxAttempts \<and> Database_getUrlByShortCode db (generate L j None) = None)"
      using exists_least_iff [of "\<lambda>k. k < maxAttempts \<and> Database_getUrlByShortCode db (generate L k None) = None"]
      by blast
    have "generate_loop L db 0 = (generate L k None, k)"
      by (rule generate_loop_first_free) (use k least in \<open>auto\<close>)
    with ex k show False by simp
  qed
qed

lemma createUrlRecord_not_exhausted:
  "fst (createUrlRecord env req db n c) \<noteq> Json 500 (Failure Unable_to_generate_unique_short_code)"
  by (auto simp: createUrlRecord_def Let_def split: sum.splits prod.splits)

subsection \<open>The URL-safe alphabet\<close>

lemma char_range_set:
  assumes "lo < 65536" "hi < 65536"
  shows "c \<in> set (char_range lo hi) \<longleftrightarrow> (of_nat lo \<le> c \<and> c \<le> of_nat hi)"
proof
  assume "c \<in> set (char_range lo hi)"
  then obtain n where n: "lo \<le> n" "n \<le> hi" "c = of_nat n"
    by (auto simp: char_range_def)
  with assms show "of_nat lo \<le> c \<and> c \<le> of_nat hi"
    by (simp add: word_le_nat_alt unat_of_nat)
next
  assume h: "of_nat lo \<le> c \<and> c \<le> of_nat hi"
  with assms have "lo \<le> unat c" "unat c \<le> hi"
    by (simp_all add: word_le_nat_alt unat_of_nat)
  then have "unat c \<in> set [lo..<Suc hi]" by auto
  then have "(of_nat (unat c) :: code_unit) \<in> of_nat ` set [lo..<Suc hi]"
    by (rule imageI)
  then show "c \<in> set (char_range lo hi)"
    by (simp add: char_range_def del: upt_Suc)
qed

lemma urlAlphabet_set:
  "c \<in> set urlAlphabet \<longleftrightarrow> is_upper c \<or> is_lower c \<or> is_digit c \<or> c = 0x2D \<or> c = 0x5F"
  using char_range_set [where lo="0x41" and hi="0x5A" and c=c]
    char_range_set [where lo="0x61" and hi="0x7A" and c=c]
    char_range_set [where lo="0x30" and hi="0x39" and c=c]
  by (auto simp: urlAlphabet_def is_upper_def is_lower_def is_digit_def)

lemma urlAlphabet_length: "length urlAlphabet = 64"
  by (simp add: urlAlphabet_def char_range_def)

lemma urlAlphabet_distinct: "distinct urlAlphabet"
  unfolding urlAlphabet_def char_range_def
  by (simp add: distinct_map inj_on_def)

lemma nanoid_spec_length: "length (nanoid_spec rnd n) = n"
  by (simp add: nanoid_spec_def)

lemma nanoid_spec_chars: "set (nanoid_spec rnd n) \<subseteq> set urlAlphabet"
  by (auto simp: nanoid_spec_def urlAlphabet_length)

subsection \<open>Rows with a unique short code\<close>

lemma unique_row:
  assumes "distinct (map short_code db)" "i < length db" "short_code (db ! i) = code"
    and "row \<in> set db" "short_code row = code"
  shows "row = db ! i"
proof -
  from assms(1) have "inj_on short_code (set db)" by (simp add: distinct_map)
  moreover from assms(2) have "db ! i \<in> set db" by simp
  ultimately show ?thesis using assms(3-5) by (auto dest: inj_onD)
qed

lemma filter_unique:
  assumes "distinct (map short_code db)" "i < length db" "short_code (db ! i) = code"
  shows "filter (\<lambda>row. short_code row = code) db = [db ! i]"
  using assms
proof (induction db arbitrary: i)
  case Nil
  then show ?case by simp
next
  case (Cons x xs)
  show ?case
  proof (cases i)
    case 0
    with Cons.prems have "short_code x = code" "code \<notin> set (map short_code xs)" by auto
    from this(2) have "filter (\<lambda>row. short_code row = code) xs = []"
      unfolding filter_empty_conv set_map by blast
    with 0 \<open>short_code x = code\<close> show ?thesis by simp
  next
    case (Suc j)
    with Cons.prems have j: "j < length xs" "short_code (xs ! j) = code" by auto
    then have "xs ! j \<in> set xs" by simp
    with j have "code \<in> set (map short_code xs)" by force
    with Cons.prems have "short_code x \<noteq> code" by auto
    with Cons.IH [of j] Cons.prems j Suc show ?thesis by simp
  qed
qed

lemma map_update_unique:
  assumes "distinct (map short_code db)" "i < length db" "short_code (db ! i) = code"
  shows "map (\<lambda>row. if short_code row = code then f row else row) db = db[i := f (db ! i)]"
proof (rule nth_equalityI)
  show "length (map (\<lambda>row. if short_code row = code then f row else row) db) = length (db[i := f (db ! i)])"
    by simp
next
  fix j assume "j < length (map (\<lambda>row. if short_code row = code then f row else row) db)"
  then have j: "j < length db" by simp
  show "map (\<lambda>row. if short_code row = code then f row else row) db ! j = db[i := f (db ! i)] ! j"
  proof (cases "j = i")
    case True
    with assms j show ?thesis by simp
  next
    case False
    have "short_code (db ! j) \<noteq> code"
    proof
      assume "short_code (db ! j) = code"
      with assms j have "map short_code db ! j = map short_code db ! i" by simp
      with assms(1,2) j have "j = i"
        using nth_eq_iff_index_eq [of "map short_code db" j i] by simp
      with False show False by simp
    qed
    with j False show ?thesis by simp
  qed
qed

lemma increment_at:
  assumes "distinct (map short_code db)" "i < length db" "short_code (db ! i) = code"
    and "click_count (db ! i) < INT4_MAX"
  shows "Database_incrementClickCount db code =
     Inr (Some \<lparr>originalUrl = original_url (db ! i), shortCode = code,
                clickCount = click_count (db ! i) + 1,
                url_id = row_id (db ! i), createdAt = created_at (db ! i)\<rparr>,
          db[i := (db ! i)\<lparr>click_count := click_count (db ! i) + 1\<rparr>])"
proof -
  let ?row' = "(db ! i)\<lparr>click_count := click_count (db ! i) + 1\<rparr>"
  let ?db' = "db[i := ?row']"
  have no_overflow: "\<not> list_ex (\<lambda>row. short_code row = code \<and> INT4_MAX < click_count row + 1) db"
  proof
    assume "list_ex (\<lambda>row. short_code row = code \<and> INT4_MAX < click_count row + 1) db"
    then obtain row where row: "row \<in> set db" "short_code row = code"
      "INT4_MAX < click_count row + 1"
      by (auto simp: list_ex_iff)
    then have "row = db ! i" by (intro unique_row [OF assms(1-3)])
    with row assms(4) show False by simp
  qed
  have upd: "map (\<lambda>row. if short_code row = code
                    then row\<lparr>click_count := click_count row + 1\<rparr> else row) db = ?db'"
    using assms(1-3) by (rule map_update_unique)
  have codes: "map short_code ?db' = map short_code db"
    using assms(2,3) by (simp add: map_update list_update_same_conv)
  have "filter (\<lambda>row. short_code row = code) ?db' = [?db' ! i]"
    by (rule filter_unique) (use assms codes in auto)
  with assms(2) have "filter (\<lambda>row. short_code row = code) ?db' = [?row']" by simp
  with no_overflow upd assms(3) show ?thesis
    by (simp add: Database_incrementClickCount_def row_to_Url_def)
qed

lemma increment_absent:
  assumes "code \<notin> set (map short_code db)"
  shows "Database_incrementClickCount db code = Inr (None, db)"
proof -
  from assms have none: "\<forall>row\<in>set db. short_code row \<noteq> code" by auto
  then have "map (\<lambda>row. if short_code row = code
                    then row\<lparr>click_count := click_count row + 1\<rparr> else row) db = db"
    by (simp add: map_idI)
  moreover from none have "filter (\<lambda>row. short_code row = code) db = []"
    by (simp add: filter_empty_conv)
  moreover from none have "\<not> list_ex (\<lambda>row. short_code row = code \<and> INT4_MAX < click_count row + 1) db"
    by (auto simp: list_ex_iff)
  ultimately show ?thesis
    by (simp add: Database_incrementClickCount_def)
qed

lemma get_at:
  assumes "distinct (map short_code db)" "i < length db" "short_code (db ! i) = code"
  shows "Database_getUrlByShortCode db code = Some (row_to_Url (db ! i))"
  using filter_unique [OF assms] by (simp add: Database_getUrlByShortCode_def)

subsection \<open>The row that an insertion appends\<close>

lemma get_appended:
  assumes "code \<notin> set (map short_code db)" "short_code row = code"
  shows "Database_getUrlByShortCode (db @ [row]) code = Some (row_to_Url row)"
proof -
  from assms(1) have "filter (\<lambda>row. short_code row = code) db = []"
    unfolding filter_empty_conv set_map by blast
  with assms(2) show ?thesis
    by (simp add: Database_getUrlByShortCode_def)
qed

lemma increment_appended:
  assumes "code \<notin> set (map short_code db)" "short_code row = code"
    and "click_count row < INT4_MAX"
  shows "Database_incrementClickCount (db @ [row]) code =
     Inr (Some (row_to_Url (row\<lparr>click_count := click_count row + 1\<rparr>)),
          db @ [row\<lparr>click_count := click_count row + 1\<rparr>])"
proof -
  from assms(1) have none: "\<forall>r\<in>set db. short_code r \<noteq> code"
    unfolding set_map by blast
  then have "map (\<lambda>row. if short_code row = code
                    then row\<lparr>click_count := click_count row + 1\<rparr> else row) db = db"
    by (simp add: map_idI)
  moreover from none have "filter (\<lambda>row. short_code row = code) db = []"
    by (simp add: filter_empty_conv)
  moreover from none have "\<not> list_ex (\<lambda>row. short_code row = code \<and> INT4_MAX < click_count row + 1) db"
    by (auto simp: list_ex_iff)
  ultimately show ?thesis
    using assms(2,3) by (simp add: Database_incrementClickCount_def)
qed

lemma createUrl_Inr:
  assumes "Database_createUrl db env url = Inr (created, db')"
  shows "shortCode url \<notin> set (map short_code db) \<and> nextval env \<notin> set (map row_id db)
    \<and> INT4_MIN \<le> clickCount url \<and> clickCount url \<le> INT4_MAX
    \<and> db' = db @ [\<lparr>row_id = nextval env, original_url = originalUrl url,
                     short_code = shortCode url, created_at = current_timestamp env,
                     click_count = clickCount url, updated_at = current_timestamp env\<rparr>]
    \<and> created = \<lparr>originalUrl = originalUrl url, shortCode = shortCode url,
                  clickCount = clickCount url, url_id = nextval env,
                  createdAt = current_timestamp env\<rparr>"
  using assms
  by (auto simp: Database_createUrl_def row_to_Url_def Let_def split: if_splits)

lemma createUrlRecord_cases:
  "createUrlRecord env req db n c = (Json 500 (Failure Internal_server_error), db)
   \<or> (c \<notin> set (map short_code db) \<and>
      store_step db (db @ [\<lparr>row_id = nextval env, original_url = n, short_code = c,
                 created_at = current_timestamp env, click_count = 0,
                 updated_at = current_timestamp env\<rparr>]) \<and>
      createUrlRecord env req db n c =
        (Json 201 (Created (nextval env) n c (baseUrl req @ js ''/'' @ c) (current_timestamp env)),
         db @ [\<lparr>row_id = nextval env, original_url = n, short_code = c,
                 created_at = current_timestamp env, click_count = 0,
                 updated_at = current_timestamp env\<rparr>]))"
proof (cases "Database_createUrl db env \<lparr>originalUrl = n, shortCode = c, clickCount = 0\<rparr>")
  case (Inl e)
  then show ?thesis by (simp add: createUrlRecord_def)
next
  case (Inr p)
  obtain created db' where p: "p = (created, db')" by (cases p)
  from Inr p have "store_step db db'" by (auto intro: step_create)
  with createUrl_Inr [OF Inr [unfolded p]] Inr p show ?thesis
    by (simp add: createUrlRecord_def)
qed

lemma createShortUrl_cases:
  "snd (UrlController_createShortUrl L env req db) = db
     \<and> (\<forall>i ou c su ca. fst (UrlController_createShortUrl L env req db) \<noteq> Json 201 (Created i ou c su ca))
   \<or> (\<exists>n c. c \<notin> set (map short_code db) \<and>
        store_step db (db @ [\<lparr>row_id = nextval env, original_url = n, short_code = c,
                 created_at = current_timestamp env, click_count = 0,
                 updated_at = current_timestamp env\<rparr>]) \<and>
        UrlController_createShortUrl L env req db =
        (Json 201 (Created (nextval env) n c (baseUrl req @ js ''/'' @ c) (current_timestamp env)),
         db @ [\<lparr>row_id = nextval env, original_url = n, short_code = c,
                 created_at = current_timestamp env, click_count = 0,
                 updated_at = current_timestamp env\<rparr>]))"
proof -
  have rec: "?thesis" if "UrlController_createShortUrl L env req db = createUrlRecord env req db n c" for n c
    using createUrlRecord_cases [of env req db n c] that by auto
  show ?thesis
  proof (cases "truthy (body_url req) \<and> isValidUrl L (body_url req)")
    case False
    then show ?thesis by (auto simp: UrlController_createShortUrl_def Let_def)
  next
    case valid: True
    show ?thesis
    proof (cases "truthy (body_customCode req)")
      case True
      show ?thesis
      proof (cases "isValidCustomCode (body_customCode req) \<and>
          Database_getUrlByShortCode db (string_of (body_customCode req)) = None")
        case True
        with valid \<open>truthy (body_customCode req)\<close> show ?thesis
          by (intro rec) (simp add: UrlController_createShortUrl_def Let_def)
      next
        case False
        with valid \<open>truthy (body_customCode req)\<close> show ?thesis
          by (auto simp: UrlController_createShortUrl_def Let_def split: option.splits)
      qed
    next
      case False
      obtain c a where loop: "generate_loop L db 0 = (c, a)" by (cases "generate_loop L db 0")
      show ?thesis
      proof (cases "maxAttempts \<le> a")
        case True
        with valid False loop show ?thesis
          by (simp add: UrlController_createShortUrl_def Let_def)
      next
        case nex: False
        with valid False loop show ?thesis
          by (intro rec) (simp add: UrlController_createShortUrl_def Let_def)
      qed
    qed
  qed
qed

subsection \<open>Newest first\<close>

lemma newest_first_sorted:
  "sorted_wrt (\<lambda>a b. created_at b \<le> created_at a) (sort_key (\<lambda>row. - created_at row) db)"
proof -
  have "sorted (map (\<lambda>row. - created_at row) (sort_key (\<lambda>row. - created_at row) db))"
    by (rule sorted_sort_key)
  then show ?thesis by (simp add: sorted_map)
qed

lemma getAllUrls_page:
  assumes "0 \<le> l" "l \<le> INT8_MAX" "0 \<le> off" "off \<le> INT8_MAX"
  shows "Database_getAllUrls db (Num l) (Num off) =
    Inr (map row_to_Url (take (nat l) (drop (nat off) (sort_key (\<lambda>row. - created_at row) db))),
         int (length db))"
  using assms by (simp add: Database_getAllUrls_def Let_def)

subsection \<open>Numbers that are exact\<close>

lemma number_exact: "\<bar>n\<bar> \<le> 2 ^ 53 \<Longrightarrow> number n = Num n"
proof -
  assume small: "\<bar>n\<bar> \<le> 2 ^ 53"
  have "(2::int) ^ 53 < 2 ^ 1024" by simp
  with small have "n < 2 ^ 1024" "- (2 ^ 1024) < n" by linarith+
  with small show ?thesis
    by (simp add: number_def round_to_double_def)
qed

subsection \<open>Steps of the store\<close>

lemma increment_Inr:
  assumes "Database_incrementClickCount db code = Inr (updated, db')"
  shows "db' = map (\<lambda>row. if short_code row = code
                            then row\<lparr>click_count := click_count row + 1\<rparr> else row) db"
  using assms
  by (auto simp: Database_incrementClickCount_def Let_def split: if_splits list.splits)

lemma store_step_cases:
  assumes "store_step db db'"
  shows "(\<exists>row. db' = db @ [row] \<and> short_code row \<notin> set (map short_code db)
              \<and> row_id row \<notin> set (map row_id db))
    \<or> (\<exists>code. db' = map (\<lambda>row. if short_code row = code
                            then row\<lparr>click_count := click_count row + 1\<rparr> else row) db)
    \<or> (\<exists>code. db' = filter (\<lambda>row. short_code row \<noteq> code) db)
    \<or> db' = db"
  using assms
proof cases
  case (step_create env url created)
  from createUrl_Inr [OF this] show ?thesis by auto
next
  case (step_increment code updated)
  from increment_Inr [OF this] show ?thesis by blast
next
  case (step_delete code deleted)
  then show ?thesis by (auto simp: Database_deleteUrl_def Let_def)
next
  case step_read
  then show ?thesis by simp
qed

lemma store_step_keys:
  assumes "store_step db db'" "distinct (map short_code db)" "distinct (map row_id db)"
  shows "distinct (map short_code db') \<and> distinct (map row_id db')"
proof -
  have upd: "short_code \<circ> (\<lambda>row. if short_code row = code
                 then row\<lparr>click_count := click_count row + 1\<rparr> else row) = short_code"
       "row_id \<circ> (\<lambda>row. if short_code row = code
                 then row\<lparr>click_count := click_count row + 1\<rparr> else row) = row_id"
    for code by (rule ext, simp)+
  from store_step_cases [OF assms(1)] assms(2,3) show ?thesis
    by (auto simp: upd distinct_map_filter)
qed

lemma reachable_keys:
  "reachable db \<Longrightarrow> distinct (map short_code db) \<and> distinct (map row_id db)"
proof (induction rule: reachable.induct)
  case reachable_init
  then show ?case by (simp add: initDatabase_def)
next
  case (reachable_step db db')
  then show ?case using store_step_keys by blast
qed

lemma store_step_frame:
  assumes "store_step db db'" "r' \<in> set db'"
  shows "(\<exists>r\<in>set db. r' = r\<lparr>click_count := click_count r'\<rparr> \<and> click_count r \<le> click_count r')
       \<or> (db' = db @ [r'] \<and> row_id r' \<notin> set (map row_id db)
            \<and> short_code r' \<notin> set (map short_code db))"
proof -
  have old: ?thesis if "r' \<in> set db"
  proof -
    have "r' = r'\<lparr>click_count := click_count r'\<rparr> \<and> click_count r' \<le> click_count r'"
      by simp
    with that show ?thesis by blast
  qed
  from store_step_cases [OF assms(1)] consider
      (create) row where "db' = db @ [row]" "short_code row \<notin> set (map short_code db)"
        "row_id row \<notin> set (map row_id db)"
    | (increment) code where "db' = map (\<lambda>row. if short_code row = code
                            then row\<lparr>click_count := click_count row + 1\<rparr> else row) db"
    | (delete) code where "db' = filter (\<lambda>row. short_code row \<noteq> code) db"
    | (read) "db' = db"
    by blast
  then show ?thesis
  proof cases
    case create
    with assms(2) have "r' \<in> set db \<or> r' = row" by auto
    with create old show ?thesis by auto
  next
    case increment
    with assms(2) obtain r where r: "r \<in> set db"
      "r' = (if short_code r = code then r\<lparr>click_count := click_count r + 1\<rparr> else r)"
      by auto
    then have "r' = r\<lparr>click_count := click_count r'\<rparr> \<and> click_count r \<le> click_count r'"
      by simp
    with r(1) show ?thesis by blast
  next
    case delete
    with assms(2) have "r' \<in> set db" by simp
    then show ?thesis by (rule old)
  next
    case read
    with assms(2) old show ?thesis by simp
  qed
qed

subsection \<open>The handlers as steps of the store\<close>

lemma createShortUrl_step:
  assumes "UrlController_createShortUrl L env req db = (res, db')"
  shows "store_step db db' \<and>
    (db' = db \<or> (\<exists>r. db' = db @ [r] \<and> click_count r = 0 \<and> created_at r = current_timestamp env))"
  using createShortUrl_cases [of L env req db] assms
  by (auto intro: step_read)

lemma redirect_step:
  assumes "UrlController_redirectToOriginalUrl req db = (res, db')"
  shows "store_step db db'"
  using assms
  by (auto simp: UrlController_redirectToOriginalUrl_def Let_def
      split: if_splits option.splits sum.splits intro: step_read step_increment)

lemma deleteUrl_step:
  assumes "UrlController_deleteUrl req db = (res, db')"
  shows "store_step db db'"
  using assms
  by (auto simp: UrlController_deleteUrl_def Let_def
      split: if_splits prod.splits intro: step_read step_delete)

lemma reads_step:
  assumes "UrlController_getAllUrls req db = (res, db') \<or> UrlController_getUrlStats req db = (res, db')"
  shows "store_step db db'"
  using assms
  by (auto simp: UrlController_getAllUrls_def UrlController_getUrlStats_def Let_def
      split: if_splits option.splits sum.splits prod.splits intro: step_read)

subsection \<open>The example values\<close>

lemma example_honours_protocols: "honours_protocols example_libs"
proof -
  have "\<exists>p\<in>set (protocols options). protocol u = p @ js '':''"
    if "example_isURL s options" "example_new_URL s = Some u" for s options u
  proof -
    from that(1) have s: "s = js ''https://example.com''"
      and p: "js ''https'' \<in> set (protocols options)"
      by (simp_all add: example_isURL_def)
    from that(2) have "protocol u = js ''https'' @ js '':''"
      unfolding s by (auto simp: example_new_URL_def js_simps)
    with p show ?thesis by blast
  qed
  then show ?thesis
    unfolding honours_protocols_def example_libs_def by auto
qed

lemma example_valid: "isValidUrl example_libs (body_url example_request)"
  by (simp add: example_request_def example_libs_def example_isURL_def example_new_URL_def
      js_simps startsWith_def)

lemma example_truthy:
  "truthy (body_url example_request)" "\<not> truthy (body_customCode example_request)"
  by (simp_all add: example_request_def js_simps)

lemma example_generate: "generate example_libs k None = replicate 6 (of_nat (0x41 + k))"
  by (simp add: generate_def example_libs_def DEFAULT_LENGTH_def)

lemma example_db_codes:
  "map short_code (example_db n) = map (\<lambda>k. replicate 6 (of_nat (0x41 + k))) [0..<n]"
  by (simp add: example_db_def example_row_def comp_def)

lemma example_collide:
  "k < n \<Longrightarrow> Database_getUrlByShortCode (example_db n) (generate example_libs k None) \<noteq> None"
  unfolding getUrlByShortCode_None_iff example_db_codes example_generate by simp

lemma replicate_6: "replicate 6 x = [x, x, x, x, x, x]"
  by (simp add: eval_nat_numeral)

lemma example_db_2:
  "example_db 2 = [example_row 0, example_row 1]"
  by (simp add: example_db_def numeral_2_eq_2)

lemma example_free_2:
  "Database_getUrlByShortCode (example_db 2) (generate example_libs 2 None) = None"
  unfolding getUrlByShortCode_None_iff example_generate example_db_2
  by (simp add: example_row_def)

lemma example_normalized:
  "normalizeUrl example_libs (string_of (body_url example_request)) = js ''https://example.com''"
  by (simp add: example_request_def example_libs_def example_new_URL_def normalizeUrl_def
      replace_trailing_slash_def js_simps)

lemma example_created:
  "createUrlRecord example_env example_request (example_db 2) (js ''https://example.com'')
      (generate example_libs 2 None)
    = (Json 201 (Created 11 (js ''https://example.com'') (js ''CCCCCC'')
                   (js ''https://sho.rt/CCCCCC'') 2000),
       example_db 2 @
        [\<lparr>row_id = 11, original_url = js ''https://example.com'', short_code = js ''CCCCCC'',
          created_at = 2000, click_count = 0, updated_at = 2000\<rparr>])"
  unfolding example_generate example_db_2
  by (simp add: createUrlRecord_def Database_createUrl_def example_env_def example_request_def
      example_row_def row_to_Url_def baseUrl_def template_def INT4_MIN_def INT4_MAX_def js_simps
      replicate_6)

lemma example_shorten:
  "UrlController_createShortUrl example_libs example_env example_request (example_db 2)
     = (Json 201 (Created 11 (js ''https://example.com'') (js ''CCCCCC'')
                   (js ''https://sho.rt/CCCCCC'') 2000),
        example_db 2 @
         [\<lparr>row_id = 11, original_url = js ''https://example.com'', short_code = js ''CCCCCC'',
           created_at = 2000, click_count = 0, updated_at = 2000\<rparr>])"
proof -
  have "generate_loop example_libs (example_db 2) 0 = (generate example_libs 2 None, 2)"
    by (rule generate_loop_first_free)
      (use example_free_2 example_collide [of _ 2] in \<open>auto simp: maxAttempts_def\<close>)
  then have "UrlController_createShortUrl example_libs example_env example_request (example_db 2)
     = createUrlRecord example_env example_request (example_db 2)
         (normalizeUrl example_libs (string_of (body_url example_request)))
         (generate example_libs 2 None)"
    using example_valid example_truthy
    by (simp add: UrlController_createShortUrl_def Let_def maxAttempts_def)
  then show ?thesis
    by (simp only: example_normalized example_created)
qed

lemma example_db_0: "example_db 0 = []"
  by (simp add: example_db_def)

lemma example_db_1: "example_db 1 = [example_row 0]"
  by (simp add: example_db_def)

lemma example_db_3: "example_db 3 = [example_row 0, example_row 1, example_row 2]"
  by (simp add: example_db_def eval_nat_numeral)

lemma example_db_5:
  "example_db 5 = [example_row 0, example_row 1, example_row 2, example_row 3, example_row 4]"
  by (simp add: example_db_def eval_nat_numeral)

lemma example_row_0:
  "example_row 0 = \<lparr>row_id = 1, original_url = js ''https://example.com'',
     short_code = js ''AAAAAA'', created_at = 1000, click_count = 0, updated_at = 1000\<rparr>"
  by (simp add: example_row_def replicate_6 js_simps)

lemma example_row_1:
  "example_row 1 = \<lparr>row_id = 2, original_url = js ''https://example.com'',
     short_code = js ''BBBBBB'', created_at = 1001, click_count = 0, updated_at = 1001\<rparr>"
  by (simp add: example_row_def replicate_6 js_simps)

lemma example_row_2:
  "example_row 2 = \<lparr>row_id = 3, original_url = js ''https://example.com'',
     short_code = js ''CCCCCC'', created_at = 1002, click_count = 0, updated_at = 1002\<rparr>"
  by (simp add: example_row_def replicate_6 js_simps)

lemma example_step_0: "store_step (example_db 0) (example_db 1)"
proof -
  have "Database_createUrl (example_db 0) \<lparr>nextval = 1, current_timestamp = 1000\<rparr>
          \<lparr>originalUrl = js ''https://example.com'', shortCode = js ''AAAAAA'', clickCount = 0\<rparr>
        = Inr (row_to_Url (example_row 0), example_db 1)"
    unfolding example_db_0 example_db_1 example_row_0
    by (simp add: Database_createUrl_def Let_def INT4_MIN_def INT4_MAX_def)
  then show ?thesis by (rule step_create)
qed

lemma example_step_1: "store_step (example_db 1) (example_db 2)"
proof -
  have "Database_createUrl (example_db 1) \<lparr>nextval = 2, current_timestamp = 1001\<rparr>
          \<lparr>originalUrl = js ''https://example.com'', shortCode = js ''BBBBBB'', clickCount = 0\<rparr>
        = Inr (row_to_Url (example_row 1), example_db 2)"
    unfolding example_db_1 example_db_2 example_row_0 example_row_1
    by (simp add: Database_createUrl_def Let_def INT4_MIN_def INT4_MAX_def js_simps)
  then show ?thesis by (rule step_create)
qed

lemma example_step_2: "store_step (example_db 2) (example_db 3)"
proof -
  have "Database_createUrl (example_db 2) \<lparr>nextval = 3, current_timestamp = 1002\<rparr>
          \<lparr>originalUrl = js ''https://example.com'', shortCode = js ''CCCCCC'', clickCount = 0\<rparr>
        = Inr (row_to_Url (example_row 2), example_db 3)"
    unfolding example_db_3 example_db_2 example_row_0 example_row_1 example_row_2
    by (simp add: Database_createUrl_def Let_def INT4_MIN_def INT4_MAX_def js_simps)
  then show ?thesis by (rule step_create)
qed

lemma example_reachable: "reachable (example_db 2)"
proof -
  have "reachable (example_db 0)"
    unfolding example_db_0 using reachable_init by (simp add: initDatabase_def)
  then have "reachable (example_db 1)" using example_step_0 by (rule reachable_step)
  then show ?thesis using example_step_1 by (rule reachable_step)
qed

lemma example_param: "param_shortCode example_request = js ''AAAAAA''"
  by (simp add: example_request_def)

lemma example_db_2_distinct: "distinct (map short_code (example_db 2))"
  unfolding example_db_2 example_row_0 example_row_1 by (simp add: js_simps)

lemma github_valid: "isValidCustomCode (JString (js ''github''))"
  by (simp add: js_simps CUSTOM_CODE_MAX_LENGTH_def allowedPattern_def is_alnum_def
      is_lower_def is_upper_def is_digit_def toLowerCase_def reservedWords_def)

lemma ab_invalid: "\<not> isValidCustomCode (JString (js ''ab''))"
  by (simp add: js_simps)

lemma example_row_3:
  "example_row 3 = \<lparr>row_id = 4, original_url = js ''https://example.com'',
     short_code = js ''DDDDDD'', created_at = 1003, click_count = 0, updated_at = 1003\<rparr>"
  by (simp add: example_row_def replicate_6 js_simps)

lemma example_row_4:
  "example_row 4 = \<lparr>row_id = 5, original_url = js ''https://example.com'',
     short_code = js ''EEEEEE'', created_at = 1004, click_count = 0, updated_at = 1004\<rparr>"
  by (simp add: example_row_def replicate_6 js_simps)

lemma example_page:
  "Database_getAllUrls (example_db 5) (Num 3) (Num 3)
     = Inr ([row_to_Url (example_row 1), row_to_Url (example_row 0)], 5)"
  unfolding example_db_5 example_row_0 example_row_1 example_row_2 example_row_3 example_row_4
  by (simp add: Database_getAllUrls_def Let_def INT8_MAX_def)

lemma floorlog_huge_offset: "floorlog 2 18446744069414584320 = 64"
  by (simp add: compute_floorlog)

lemma number_huge_offset: "number 18446744069414584320 = Num 18446744069414584320"
proof -
  have "round_to_double 18446744069414584320 = 18446744069414584320"
    by (simp add: round_to_double_def floorlog_huge_offset Let_def)
  moreover have "(18446744069414584320::int) < 2 ^ 1024"
  proof -
    have "(18446744069414584320::int) < 2 ^ 65" by simp
    also have "(2::int) ^ 65 < 2 ^ 1024" by simp
    finally show ?thesis .
  qed
  ultimately show ?thesis by (simp add: number_def Let_def)
qed

lemma huge_limit_500:
  "UrlController_getAllUrls huge_limit_request db = (Json 500 (Failure Internal_server_error), db)"
proof -
  have "js_times (js_minus (Num 1) (Num 1)) (Num 9223372036854775808) = Num 0"
    by (simp add: number_exact)
  then show ?thesis
    by (simp add: UrlController_getAllUrls_def huge_limit_request_def or_default_def Let_def
        Database_getAllUrls_def INT8_MAX_def del: js_times.simps js_minus.simps)
qed

lemma huge_offset_500:
  "UrlController_getAllUrls huge_offset_request db = (Json 500 (Failure Internal_server_error), db)"
proof -
  have "js_minus (Num 4294967296) (Num 1) = Num 4294967295"
    by (simp add: number_exact)
  then have "js_times (js_minus (Num 4294967296) (Num 1)) (Num 4294967296)
      = Num 18446744069414584320"
    by (simp add: number_huge_offset del: js_minus.simps)
  then show ?thesis
    by (simp add: UrlController_getAllUrls_def huge_offset_request_def or_default_def Let_def
        Database_getAllUrls_def INT8_MAX_def del: js_times.simps js_minus.simps)
qed

section \<open>UrlValidator.isValidUrl\<close>

text \<open>
  C1 (as amended). For every string \<open>s\<close>, \<open>isValidUrl\<close> returns true only if \<open>s\<close>
  parses as an absolute URL whose scheme is http or https and whose host is not
  localhost, not 127.0.0.1 and does not start with 192.168., 10. or 172.; it returns true
  for such a string if and only if \<open>s\<close> is, in addition, not empty and accepted by
  \<open>validator.isURL\<close> with the protocols http and https and a required protocol. A value
  that is not a string, the empty string and a string that does not parse yield false,
  and no case throws. The library is taken to honour its option \<open>protocols\<close>.
\<close>

theorem isValidUrl_iff:
  assumes "honours_protocols L"
  shows
    "(isValidUrl L (JString s) \<longleftrightarrow>
        s \<noteq> []
        \<and> validator_isURL L s \<lparr>protocols = [js ''http'', js ''https''], require_protocol = True\<rparr>
        \<and> claimed_isValidUrl L s)
     \<and> (isValidUrl L (JString s) \<longrightarrow> claimed_isValidUrl L s)
     \<and> \<not> isValidUrl L (JOther b)
     \<and> \<not> isValidUrl L (JString [])
     \<and> (new_URL L s = None \<longrightarrow> \<not> isValidUrl L (JString s))"
proof -
  let ?options = "\<lparr>protocols = [js ''http'', js ''https''], require_protocol = True\<rparr>"
  have scheme: "protocol u = js ''http:'' \<or> protocol u = js ''https:''"
    if "validator_isURL L s ?options" "new_URL L s = Some u" for u
  proof -
    from assms have "validator_isURL L s ?options \<and> require_protocol ?options
        \<and> new_URL L s = Some u \<longrightarrow>
        (\<exists>p\<in>set (protocols ?options). protocol u = p @ js '':'')"
      unfolding honours_protocols_def by blast
    with that have "protocol u = js ''http'' @ js '':'' \<or> protocol u = js ''https'' @ js '':''"
      by simp
    then show ?thesis by (simp add: js_def)
  qed
  have iff: "isValidUrl L (JString s) \<longleftrightarrow>
        s \<noteq> [] \<and> validator_isURL L s ?options \<and> claimed_isValidUrl L s"
  proof (cases "new_URL L s")
    case None
    then show ?thesis by (simp add: claimed_isValidUrl_def)
  next
    case (Some u)
    with scheme [of u] show ?thesis
      by (auto simp: claimed_isValidUrl_def Let_def)
  qed
  have none: "new_URL L s = None \<longrightarrow> \<not> isValidUrl L (JString s)"
    by simp
  from iff none show ?thesis by simp
qed

theorem isValidUrl_iff_witness:
  "honours_protocols example_libs
   \<and> isValidUrl example_libs (JString (js ''https://example.com''))
   \<and> claimed_isValidUrl example_libs (js ''https://example.com'')
   \<and> new_URL example_libs (js ''example.com'') = None
   \<and> \<not> isValidUrl example_libs (JString (js ''example.com''))"
proof -
  have v: "isValidUrl example_libs (JString (js ''https://example.com''))"
    using example_valid by (simp add: example_request_def)
  have n: "new_URL example_libs (js ''example.com'') = None"
    by (simp add: example_libs_def example_new_URL_def js_simps)
  from isValidUrl_iff [OF example_honours_protocols, of "js ''https://example.com''"] v
  have c: "claimed_isValidUrl example_libs (js ''https://example.com'')" by blast
  from isValidUrl_iff [OF example_honours_protocols, of "js ''example.com''"] n
  have r: "\<not> isValidUrl example_libs (JString (js ''example.com''))" by blast
  from example_honours_protocols v c n r show ?thesis by (simp only: simp_thms)
qed

text \<open>
  The claim as stated fails in the direction from the parsed URL to the result:
  \<open>http://intranet\<close> parses as an absolute http URL whose host is none of the excluded
  ones, and \<open>isValidUrl\<close> returns false, as \<open>validator.isURL\<close> does not accept a host
  without a top-level domain.
\<close>

theorem isValidUrl_claim_counterexample:
  "honours_protocols example_libs
   \<and> claimed_isValidUrl example_libs (js ''http://intranet'')
   \<and> \<not> isValidUrl example_libs (JString (js ''http://intranet''))"
proof -
  have "claimed_isValidUrl example_libs (js ''http://intranet'')
    \<and> \<not> isValidUrl example_libs (JString (js ''http://intranet''))"
    by (simp add: example_libs_def example_isURL_def example_new_URL_def claimed_isValidUrl_def
        js_simps startsWith_def)
  with example_honours_protocols show ?thesis by (simp only: simp_thms)
qed

section \<open>UrlController.createShortUrl: generated codes\<close>

text \<open>
  C2. The shorten operation answers with the error 500 \<open>Unable to generate unique short
  code\<close> exactly when the URL is valid, no custom code is given and each of the first 10
  generated codes belongs to a record of the store; the store is then unchanged. When one
  of the first 10 generated codes is free, the first free one is the code that the
  operation inserts, so at most 10 codes are tried.
\<close>

theorem createShortUrl_exhaustion:
  "(fst (UrlController_createShortUrl L env req db)
        = Json 500 (Failure Unable_to_generate_unique_short_code)
      \<longleftrightarrow> truthy (body_url req) \<and> isValidUrl L (body_url req) \<and> \<not> truthy (body_customCode req)
          \<and> (\<forall>k<10. Database_getUrlByShortCode db (generate L k None) \<noteq> None))
   \<and> (fst (UrlController_createShortUrl L env req db)
        = Json 500 (Failure Unable_to_generate_unique_short_code)
      \<longrightarrow> snd (UrlController_createShortUrl L env req db) = db)
   \<and> (truthy (body_url req) \<and> isValidUrl L (body_url req) \<and> \<not> truthy (body_customCode req) \<longrightarrow>
       (\<forall>k<10. Database_getUrlByShortCode db (generate L k None) = None
             \<and> (\<forall>j<k. Database_getUrlByShortCode db (generate L j None) \<noteq> None) \<longrightarrow>
          UrlController_createShortUrl L env req db
            = createUrlRecord env req db (normalizeUrl L (string_of (body_url req)))
                (generate L k None)))"
proof -
  let ?res = "UrlController_createShortUrl L env req db"
  let ?ex = "Json 500 (Failure Unable_to_generate_unique_short_code)"
  let ?coll = "\<forall>k<maxAttempts. Database_getUrlByShortCode db (generate L k None) \<noteq> None"
  have ten: "maxAttempts = 10" by (simp add: maxAttempts_def)
  have a: "fst ?res = ?ex \<longleftrightarrow>
      truthy (body_url req) \<and> isValidUrl L (body_url req) \<and> \<not> truthy (body_customCode req) \<and> ?coll"
    unfolding generate_loop_exhausted_iff [symmetric]
    by (auto simp: UrlController_createShortUrl_def Let_def createUrlRecord_not_exhausted
        split: option.splits prod.splits)
  have b: "fst ?res = ?ex \<longrightarrow> snd ?res = db"
    by (auto simp: UrlController_createShortUrl_def Let_def createUrlRecord_not_exhausted
        split: option.splits prod.splits)
  have c: "UrlController_createShortUrl L env req db
            = createUrlRecord env req db (normalizeUrl L (string_of (body_url req))) (generate L k None)"
    if "truthy (body_url req)" "isValidUrl L (body_url req)" "\<not> truthy (body_customCode req)"
      "k < maxAttempts" "Database_getUrlByShortCode db (generate L k None) = None"
      "\<forall>j<k. Database_getUrlByShortCode db (generate L j None) \<noteq> None" for k
  proof -
    have "generate_loop L db 0 = (generate L k None, k)"
      by (rule generate_loop_first_free) (use that in auto)
    with that show ?thesis
      by (simp add: UrlController_createShortUrl_def Let_def)
  qed
  from a b c show ?thesis unfolding ten by blast
qed

theorem createShortUrl_exhaustion_witness:
  "UrlController_createShortUrl example_libs example_env example_request (example_db 10)
     = (Json 500 (Failure Unable_to_generate_unique_short_code), example_db 10)
   \<and> UrlController_createShortUrl example_libs example_env example_request (example_db 2)
     = (Json 201 (Created 11 (js ''https://example.com'') (js ''CCCCCC'')
                   (js ''https://sho.rt/CCCCCC'') 2000),
        example_db 2 @
         [\<lparr>row_id = 11, original_url = js ''https://example.com'', short_code = js ''CCCCCC'',
           created_at = 2000, click_count = 0, updated_at = 2000\<rparr>])"
proof -
  have full: "UrlController_createShortUrl example_libs example_env example_request (example_db 10)
     = (Json 500 (Failure Unable_to_generate_unique_short_code), example_db 10)"
    using createShortUrl_exhaustion [of example_libs example_env example_request "example_db 10"]
      example_valid example_truthy example_collide [of _ 10]
    by (simp add: prod_eq_iff)
  have "\<forall>j<2. Database_getUrlByShortCode (example_db 2) (generate example_libs j None) \<noteq> None"
    using example_collide [of _ 2] by simp
  then have "UrlController_createShortUrl example_libs example_env example_request (example_db 2)
     = createUrlRecord example_env example_request (example_db 2)
         (normalizeUrl example_libs (string_of (body_url example_request)))
         (generate example_libs 2 None)"
    using createShortUrl_exhaustion [of example_libs example_env example_request "example_db 2"]
      example_valid example_truthy example_free_2
    by simp
  with full show ?thesis
    by (simp only: example_normalized example_created)
qed

section \<open>UrlController.createShortUrl: custom codes\<close>

text \<open>
  C3. For a request whose URL passed validation and that supplies a custom code: if the
  custom code fails validation, the operation answers 400 \<open>Invalid custom code\<close> and
  the store is unchanged; if the custom code is valid and a record of the store has that
  short code, the operation answers 409 \<open>Custom code already exists\<close> and the store,
  with the existing record, is unchanged. The store itself refuses to insert a second
  record with an existing short code.
\<close>

theorem createShortUrl_custom_code:
  assumes "truthy (body_url req)" "isValidUrl L (body_url req)" "truthy (body_customCode req)"
  shows
    "(\<not> isValidCustomCode (body_customCode req) \<longrightarrow>
        UrlController_createShortUrl L env req db = (Json 400 (Failure Invalid_custom_code), db))
     \<and> (isValidCustomCode (body_customCode req)
         \<and> string_of (body_customCode req) \<in> set (map short_code db) \<longrightarrow>
        UrlController_createShortUrl L env req db
          = (Json 409 (Failure Custom_code_already_exists), db))
     \<and> (shortCode url \<in> set (map short_code db) \<longrightarrow>
          (\<exists>e. Database_createUrl db env url = Inl e))"
proof (intro conjI impI)
  assume "\<not> isValidCustomCode (body_customCode req)"
  with assms show "UrlController_createShortUrl L env req db
      = (Json 400 (Failure Invalid_custom_code), db)"
    by (simp add: UrlController_createShortUrl_def Let_def)
next
  assume h: "isValidCustomCode (body_customCode req)
         \<and> string_of (body_customCode req) \<in> set (map short_code db)"
  then have "Database_getUrlByShortCode db (string_of (body_customCode req)) \<noteq> None"
    by (simp add: getUrlByShortCode_None_iff)
  with assms h show "UrlController_createShortUrl L env req db
          = (Json 409 (Failure Custom_code_already_exists), db)"
    by (auto simp: UrlController_createShortUrl_def Let_def)
next
  assume "shortCode url \<in> set (map short_code db)"
  then show "\<exists>e. Database_createUrl db env url = Inl e"
    by (simp add: Database_createUrl_def)
qed

theorem createShortUrl_custom_code_witness:
  "truthy (body_url github_request) \<and> isValidUrl example_libs (body_url github_request)
   \<and> truthy (body_customCode github_request)
   \<and> UrlController_createShortUrl example_libs example_env github_request github_db
       = (Json 409 (Failure Custom_code_already_exists), github_db)
   \<and> UrlController_createShortUrl example_libs example_env
         (example_request\<lparr>body_customCode := JString (js ''ab'')\<rparr>) github_db
       = (Json 400 (Failure Invalid_custom_code), github_db)
   \<and> (\<exists>e. Database_createUrl github_db example_env
         \<lparr>originalUrl = js ''https://example.com'', shortCode = js ''github'', clickCount = 0\<rparr>
       = Inl e)"
proof -
  have g: "truthy (body_url github_request)" "isValidUrl example_libs (body_url github_request)"
    "truthy (body_customCode github_request)"
    "isValidCustomCode (body_customCode github_request)"
    "string_of (body_customCode github_request) \<in> set (map short_code github_db)"
    using example_valid example_truthy github_valid
    by (simp_all add: github_request_def github_db_def js_simps)
  have a: "truthy (body_url (example_request\<lparr>body_customCode := JString (js ''ab'')\<rparr>))"
    "isValidUrl example_libs (body_url (example_request\<lparr>body_customCode := JString (js ''ab'')\<rparr>))"
    "truthy (body_customCode (example_request\<lparr>body_customCode := JString (js ''ab'')\<rparr>))"
    "\<not> isValidCustomCode (body_customCode (example_request\<lparr>body_customCode := JString (js ''ab'')\<rparr>))"
    using example_valid example_truthy ab_invalid
    by (simp_all add: js_simps)
  have s: "shortCode \<lparr>originalUrl = js ''https://example.com'', shortCode = js ''github'', clickCount = 0\<rparr>
      \<in> set (map short_code github_db)"
    by (simp add: github_db_def)
  from createShortUrl_custom_code [OF g(1-3), where db = github_db and env = example_env] g(4,5)
  have conflict: "UrlController_createShortUrl example_libs example_env github_request github_db
       = (Json 409 (Failure Custom_code_already_exists), github_db)"
    by blast
  from createShortUrl_custom_code [OF a(1-3), where db = github_db and env = example_env] a(4)
  have invalid: "UrlController_createShortUrl example_libs example_env
         (example_request\<lparr>body_customCode := JString (js ''ab'')\<rparr>) github_db
       = (Json 400 (Failure Invalid_custom_code), github_db)"
    by blast
  from createShortUrl_custom_code [OF g(1-3), where db = github_db and env = example_env
      and url = "\<lparr>originalUrl = js ''https://example.com'', shortCode = js ''github'', clickCount = 0\<rparr>"] s
  have guard: "\<exists>e. Database_createUrl github_db example_env
         \<lparr>originalUrl = js ''https://example.com'', shortCode = js ''github'', clickCount = 0\<rparr>
       = Inl e"
    by blast
  from g(1-3) conflict invalid guard show ?thesis by (simp only: simp_thms)
qed

section \<open>ShortCodeGenerator.isValidCustomCode\<close>

text \<open>
  C4. For every string, \<open>isValidCustomCode\<close> is true if and only if the length of the
  string is between 3 and 20 inclusive, every character is an ASCII letter or digit (a
  hyphen or an underscore makes the string invalid), and the lower-cased string is not
  one of the reserved words api, admin, www, app, dashboard, health, status. A string that
  only contains a reserved word, such as apptest, is accepted, and a value that is not a
  string is rejected.
\<close>

theorem isValidCustomCode_iff:
  "(isValidCustomCode (JString code) \<longleftrightarrow>
      3 \<le> length code \<and> length code \<le> 20
      \<and> list_all (\<lambda>c. is_lower c \<or> is_upper c \<or> is_digit c) code
      \<and> toLowerCase code \<notin> js ` {''api'', ''admin'', ''www'', ''app'', ''dashboard'', ''health'', ''status''})
   \<and> \<not> isValidCustomCode (JString (js ''my-code''))
   \<and> \<not> isValidCustomCode (JString (js ''my_code''))
   \<and> isValidCustomCode (JString (js ''apptest''))
   \<and> \<not> isValidCustomCode (JString (js ''api''))
   \<and> \<not> isValidCustomCode (JString (js ''APP''))
   \<and> \<not> isValidCustomCode (JOther b)"
proof -
  have hy: "\<not> isValidCustomCode (JString (js ''my-code''))"
    "\<not> isValidCustomCode (JString (js ''my_code''))"
    by (simp_all add: js_def CUSTOM_CODE_MAX_LENGTH_def allowedPattern_def is_alnum_def
        is_lower_def is_upper_def is_digit_def)
  have general: "isValidCustomCode (JString code) \<longleftrightarrow>
      3 \<le> length code \<and> length code \<le> 20
      \<and> list_all (\<lambda>c. is_lower c \<or> is_upper c \<or> is_digit c) code
      \<and> toLowerCase code \<notin> js ` {''api'', ''admin'', ''www'', ''app'', ''dashboard'', ''health'', ''status''}"
  proof -
    have cls: "is_alnum = (\<lambda>c. is_lower c \<or> is_upper c \<or> is_digit c)"
      by (rule ext) (simp add: is_alnum_def)
    show ?thesis
      by (auto simp: CUSTOM_CODE_MAX_LENGTH_def allowedPattern_def cls reservedWords_def)
  qed
  have ex1: "isValidCustomCode (JString (js ''apptest''))"
    by (simp add: js_def CUSTOM_CODE_MAX_LENGTH_def allowedPattern_def is_alnum_def
        is_lower_def is_upper_def is_digit_def toLowerCase_def reservedWords_def)
  have ex2: "\<not> isValidCustomCode (JString (js ''api''))"
    by (simp add: js_def CUSTOM_CODE_MAX_LENGTH_def allowedPattern_def is_alnum_def
        is_lower_def is_upper_def is_digit_def toLowerCase_def reservedWords_def)
  have ex3: "\<not> isValidCustomCode (JString (js ''APP''))"
    by (simp add: js_def CUSTOM_CODE_MAX_LENGTH_def allowedPattern_def is_alnum_def
        is_lower_def is_upper_def is_digit_def toLowerCase_def reservedWords_def)
  from hy general ex1 ex2 ex3 show ?thesis by simp
qed
section \<open>ShortCodeGenerator.generate\<close>

text \<open>
  C5. With \<open>nanoid\<close> as the specification describes it, \<open>generate(n)\<close> returns for
  every \<open>n\<close> a string of exactly \<open>n\<close> characters, each an upper-case letter, a
  lower-case letter, a digit, a hyphen or an underscore; these are the 64 characters of
  the alphabet. \<open>generate(0)\<close> is the empty string, and without an argument the length
  is 6.
\<close>

theorem generate_spec:
  "length (generate (L\<lparr>nanoid := \<lambda>k. nanoid_spec (rnd k)\<rparr>) k (Some n)) = n
   \<and> list_all (\<lambda>c. is_upper c \<or> is_lower c \<or> is_digit c \<or> c = 0x2D \<or> c = 0x5F)
        (generate (L\<lparr>nanoid := \<lambda>k. nanoid_spec (rnd k)\<rparr>) k (Some n))
   \<and> set urlAlphabet = {c. is_upper c \<or> is_lower c \<or> is_digit c \<or> c = 0x2D \<or> c = 0x5F}
   \<and> card (set urlAlphabet) = 64
   \<and> generate (L\<lparr>nanoid := \<lambda>k. nanoid_spec (rnd k)\<rparr>) k (Some 0) = []
   \<and> length (generate (L\<lparr>nanoid := \<lambda>k. nanoid_spec (rnd k)\<rparr>) k None) = 6"
proof -
  have chars: "list_all (\<lambda>c. is_upper c \<or> is_lower c \<or> is_digit c \<or> c = 0x2D \<or> c = 0x5F)
        (nanoid_spec (rnd k) n)"
    using nanoid_spec_chars [of "rnd k" n] urlAlphabet_set
    unfolding list_all_iff by blast
  have alphabet: "set urlAlphabet = {c. is_upper c \<or> is_lower c \<or> is_digit c \<or> c = 0x2D \<or> c = 0x5F}"
    using urlAlphabet_set by blast
  have size: "card (set urlAlphabet) = 64"
    using urlAlphabet_distinct urlAlphabet_length by (simp add: distinct_card)
  have empty: "nanoid_spec (rnd k) 0 = []"
    by (simp add: nanoid_spec_def)
  show ?thesis
    using chars alphabet size empty
    by (simp add: generate_def nanoid_spec_length DEFAULT_LENGTH_def)
qed

section \<open>UrlValidator.normalizeUrl\<close>

text \<open>
  C6. For every string, \<open>normalizeUrl\<close> returns the canonical form of the parsed URL
  with one trailing slash removed: when the canonical form is \<open>h\<close> followed by a slash
  the result is \<open>h\<close>, so a second trailing slash is kept, and a canonical form without
  a trailing slash is returned as it is. When the string does not parse, it is returned
  unchanged; no case throws.
\<close>

theorem normalizeUrl_spec:
  "(new_URL L url = None \<longrightarrow> normalizeUrl L url = url) \<and>
   (\<forall>u. new_URL L url = Some u \<longrightarrow>
      (\<forall>h. href u = h @ [0x2F] \<longrightarrow> normalizeUrl L url = h) \<and>
      (href u = [] \<or> last (href u) \<noteq> 0x2F \<longrightarrow> normalizeUrl L url = href u))"
  by (auto simp: normalizeUrl_def replace_trailing_slash_def)

theorem normalizeUrl_spec_witness:
  "new_URL example_libs (js ''https://example.com//'') \<noteq> None \<and>
   normalizeUrl example_libs (js ''https://example.com//'') = js ''https://example.com/'' \<and>
   normalizeUrl example_libs (js ''https://example.com'') = js ''https://example.com'' \<and>
   new_URL example_libs (js ''not a url'') = None \<and>
   normalizeUrl example_libs (js ''not a url'') = js ''not a url''"
  using normalizeUrl_spec [of example_libs "js ''not a url''"]
        normalizeUrl_spec [of example_libs "js ''https://example.com//''"]
        normalizeUrl_spec [of example_libs "js ''https://example.com''"]
  by (simp add: example_libs_def example_new_URL_def js_simps)

section \<open>Database.incrementClickCount\<close>

text \<open>
  C7 (as amended). In a table whose short codes are unique: if a record with the code
  exists and its click count is below 2147483647, the largest value of the column,
  \<open>incrementClickCount\<close> returns that record with \<open>clickCount\<close> increased by exactly
  1 and with \<open>id\<close>, \<open>originalUrl\<close>, \<open>shortCode\<close> and \<open>createdAt\<close> unchanged, and the
  table differs from the old one only in the click count of that row; two calls in
  sequence increase the click count by exactly 2 (when it is below 2147483646); if no
  record has the code, the result is \<open>null\<close> and the table is unchanged.
\<close>

theorem incrementClickCount_spec:
  assumes "distinct (map short_code db)"
  shows
    "(\<forall>i<length db. short_code (db ! i) = code \<and> click_count (db ! i) < INT4_MAX \<longrightarrow>
        Database_incrementClickCount db code =
          Inr (Some \<lparr>originalUrl = original_url (db ! i), shortCode = code,
                     clickCount = click_count (db ! i) + 1,
                     url_id = row_id (db ! i), createdAt = created_at (db ! i)\<rparr>,
               db[i := (db ! i)\<lparr>click_count := click_count (db ! i) + 1\<rparr>]))
     \<and> (\<forall>i<length db. short_code (db ! i) = code \<and> click_count (db ! i) + 1 < INT4_MAX \<longrightarrow>
          (\<exists>u1 db1 u2.
             Database_incrementClickCount db code = Inr (u1, db1) \<and>
             Database_incrementClickCount db1 code =
               Inr (Some u2, db[i := (db ! i)\<lparr>click_count := click_count (db ! i) + 2\<rparr>]) \<and>
             clickCount u2 = click_count (db ! i) + 2))
     \<and> (code \<notin> set (map short_code db) \<longrightarrow>
          Database_incrementClickCount db code = Inr (None, db))"
proof (intro conjI allI impI)
  fix i assume "i < length db" "short_code (db ! i) = code \<and> click_count (db ! i) < INT4_MAX"
  with assms show "Database_incrementClickCount db code =
          Inr (Some \<lparr>originalUrl = original_url (db ! i), shortCode = code,
                     clickCount = click_count (db ! i) + 1,
                     url_id = row_id (db ! i), createdAt = created_at (db ! i)\<rparr>,
               db[i := (db ! i)\<lparr>click_count := click_count (db ! i) + 1\<rparr>])"
    by (simp add: increment_at)
next
  fix i assume i: "i < length db"
    and h: "short_code (db ! i) = code \<and> click_count (db ! i) + 1 < INT4_MAX"
  let ?db1 = "db[i := (db ! i)\<lparr>click_count := click_count (db ! i) + 1\<rparr>]"
  have first: "Database_incrementClickCount db code =
          Inr (Some \<lparr>originalUrl = original_url (db ! i), shortCode = code,
                     clickCount = click_count (db ! i) + 1,
                     url_id = row_id (db ! i), createdAt = created_at (db ! i)\<rparr>, ?db1)"
    using assms i h by (simp add: increment_at)
  have codes: "map short_code ?db1 = map short_code db"
    using i h by (simp add: map_update list_update_same_conv)
  have "Database_incrementClickCount ?db1 code =
          Inr (Some \<lparr>originalUrl = original_url (?db1 ! i), shortCode = code,
                     clickCount = click_count (?db1 ! i) + 1,
                     url_id = row_id (?db1 ! i), createdAt = created_at (?db1 ! i)\<rparr>,
               ?db1[i := (?db1 ! i)\<lparr>click_count := click_count (?db1 ! i) + 1\<rparr>])"
    by (rule increment_at) (use assms i h codes in auto)
  with i have second: "Database_incrementClickCount ?db1 code =
          Inr (Some \<lparr>originalUrl = original_url (db ! i), shortCode = code,
                     clickCount = click_count (db ! i) + 2,
                     url_id = row_id (db ! i), createdAt = created_at (db ! i)\<rparr>,
               db[i := (db ! i)\<lparr>click_count := click_count (db ! i) + 2\<rparr>])"
    by (simp add: add.commute)
  from first second show "\<exists>u1 db1 u2.
             Database_incrementClickCount db code = Inr (u1, db1) \<and>
             Database_incrementClickCount db1 code =
               Inr (Some u2, db[i := (db ! i)\<lparr>click_count := click_count (db ! i) + 2\<rparr>]) \<and>
             clickCount u2 = click_count (db ! i) + 2"
    by simp
next
  assume "code \<notin> set (map short_code db)"
  then show "Database_incrementClickCount db code = Inr (None, db)"
    by (rule increment_absent)
qed

theorem incrementClickCount_spec_witness:
  "distinct (map short_code (example_db 2))
   \<and> Database_incrementClickCount (example_db 2) (js ''AAAAAA'') =
       Inr (Some \<lparr>originalUrl = js ''https://example.com'', shortCode = js ''AAAAAA'',
                  clickCount = 1, url_id = 1, createdAt = 1000\<rparr>,
            [(example_row 0)\<lparr>click_count := 1\<rparr>, example_row 1])
   \<and> Database_incrementClickCount (example_db 2) (js ''zzzzzz'') = Inr (None, example_db 2)"
proof -
  have absent: "js ''zzzzzz'' \<notin> set (map short_code (example_db 2))"
    unfolding example_db_2 example_row_0 example_row_1 by (simp add: js_simps)
  have present: "(0::nat) < length (example_db 2)"
    "short_code (example_db 2 ! 0) = js ''AAAAAA''"
    "click_count (example_db 2 ! 0) < INT4_MAX"
    by (simp_all add: example_db_2 example_row_0 INT4_MAX_def)
  from incrementClickCount_spec [OF example_db_2_distinct, of "js ''AAAAAA''"] present
  have "Database_incrementClickCount (example_db 2) (js ''AAAAAA'') =
          Inr (Some \<lparr>originalUrl = original_url (example_db 2 ! 0), shortCode = js ''AAAAAA'',
                     clickCount = click_count (example_db 2 ! 0) + 1,
                     url_id = row_id (example_db 2 ! 0), createdAt = created_at (example_db 2 ! 0)\<rparr>,
               (example_db 2)[0 := (example_db 2 ! 0)\<lparr>click_count := click_count (example_db 2 ! 0) + 1\<rparr>])"
    by blast
  then have one: "Database_incrementClickCount (example_db 2) (js ''AAAAAA'') =
       Inr (Some \<lparr>originalUrl = js ''https://example.com'', shortCode = js ''AAAAAA'',
                  clickCount = 1, url_id = 1, createdAt = 1000\<rparr>,
            [(example_row 0)\<lparr>click_count := 1\<rparr>, example_row 1])"
    by (simp add: example_db_2 example_row_0)
  from incrementClickCount_spec [OF example_db_2_distinct, of "js ''zzzzzz''"] absent
  have "Database_incrementClickCount (example_db 2) (js ''zzzzzz'') = Inr (None, example_db 2)"
    by blast
  with one example_db_2_distinct show ?thesis by (simp only: simp_thms)
qed

text \<open>
  A record whose click count is 2147483647 exists, and \<open>incrementClickCount\<close> does not
  return it with the count increased: the update overflows the column and the method
  throws.
\<close>

theorem incrementClickCount_claim_counterexample:
  "short_code (saturated_db ! 0) = js ''AAAAAA''
   \<and> click_count (saturated_db ! 0) = 2147483647
   \<and> Database_incrementClickCount saturated_db (js ''AAAAAA'') = Inl numeric_value_out_of_range"
  by (simp add: saturated_db_def example_row_0 Database_incrementClickCount_def INT4_MAX_def)

section \<open>Invariants of the store\<close>

text \<open>
  C8. In every state that store operations (\<open>createUrl\<close>, \<open>incrementClickCount\<close>,
  \<open>deleteUrl\<close>, reads) produce from the empty table, the short codes of the records
  are pairwise different, and so are the ids. Every operation takes such a state to
  another one in which each record either was there before, with the same \<open>id\<close>,
  \<open>shortCode\<close>, \<open>originalUrl\<close> and \<open>createdAt\<close> and a click count that is not
  smaller, or is the one record that the operation has inserted, whose id and short code
  are new. The shorten operation is such an operation, and the record that it inserts has
  the click count 0 and the insertion time as \<open>createdAt\<close>; the redirect, delete, list
  and stats operations are such operations too. So no operation changes \<open>originalUrl\<close>,
  \<open>shortCode\<close> or \<open>createdAt\<close> of a record.
\<close>

theorem store_invariants:
  assumes "reachable db"
  shows
    "distinct (map short_code db) \<and> distinct (map row_id db)
     \<and> (\<forall>db'. store_step db db' \<longrightarrow>
          reachable db' \<and>
          (\<forall>r'\<in>set db'.
             (\<exists>r\<in>set db. r' = r\<lparr>click_count := click_count r'\<rparr> \<and> click_count r \<le> click_count r')
             \<or> (db' = db @ [r'] \<and> row_id r' \<notin> set (map row_id db)
                  \<and> short_code r' \<notin> set (map short_code db))))
     \<and> (\<forall>L env req res db'.
          UrlController_createShortUrl L env req db = (res, db') \<longrightarrow>
          store_step db db' \<and>
          (db' = db \<or> (\<exists>r. db' = db @ [r] \<and> click_count r = 0
                            \<and> created_at r = current_timestamp env)))
     \<and> (\<forall>req res db'.
          UrlController_redirectToOriginalUrl req db = (res, db')
          \<or> UrlController_deleteUrl req db = (res, db')
          \<or> UrlController_getAllUrls req db = (res, db')
          \<or> UrlController_getUrlStats req db = (res, db') \<longrightarrow>
          store_step db db')"
proof (intro conjI allI impI)
  from assms show "distinct (map short_code db)" "distinct (map row_id db)"
    using reachable_keys by blast+
next
  fix db' assume "store_step db db'"
  with assms show "reachable db'" by (rule reachable_step)
next
  fix db' assume step: "store_step db db'"
  show "\<forall>r'\<in>set db'.
             (\<exists>r\<in>set db. r' = r\<lparr>click_count := click_count r'\<rparr> \<and> click_count r \<le> click_count r')
             \<or> (db' = db @ [r'] \<and> row_id r' \<notin> set (map row_id db)
                  \<and> short_code r' \<notin> set (map short_code db))"
    using store_step_frame [OF step] by blast
next
  fix L env req res db'
  assume "UrlController_createShortUrl L env req db = (res, db')"
  then show "store_step db db'"
    "db' = db \<or> (\<exists>r. db' = db @ [r] \<and> click_count r = 0
                            \<and> created_at r = current_timestamp env)"
    using createShortUrl_step by blast+
next
  fix req res db'
  assume "UrlController_redirectToOriginalUrl req db = (res, db')
          \<or> UrlController_deleteUrl req db = (res, db')
          \<or> UrlController_getAllUrls req db = (res, db')
          \<or> UrlController_getUrlStats req db = (res, db')"
  then show "store_step db db'"
    using redirect_step deleteUrl_step reads_step by blast
qed

theorem store_invariants_witness:
  "reachable (example_db 2)
   \<and> distinct (map short_code (example_db 2)) \<and> distinct (map row_id (example_db 2))
   \<and> store_step (example_db 2) (example_db 3) \<and> reachable (example_db 3)
   \<and> example_db 3 = example_db 2 @ [example_row 2]
   \<and> short_code (example_row 2) \<notin> set (map short_code (example_db 2))
   \<and> UrlController_createShortUrl example_libs example_env example_request (example_db 2)
       = (Json 201 (Created 11 (js ''https://example.com'') (js ''CCCCCC'')
                     (js ''https://sho.rt/CCCCCC'') 2000),
          example_db 2 @
           [\<lparr>row_id = 11, original_url = js ''https://example.com'', short_code = js ''CCCCCC'',
             created_at = 2000, click_count = 0, updated_at = 2000\<rparr>])
   \<and> store_step (example_db 2) (example_db 2 @
           [\<lparr>row_id = 11, original_url = js ''https://example.com'', short_code = js ''CCCCCC'',
             created_at = 2000, click_count = 0, updated_at = 2000\<rparr>])"
proof -
  have shorten: "UrlController_createShortUrl example_libs example_env example_request (example_db 2)
       = (Json 201 (Created 11 (js ''https://example.com'') (js ''CCCCCC'')
                     (js ''https://sho.rt/CCCCCC'') 2000),
          example_db 2 @
           [\<lparr>row_id = 11, original_url = js ''https://example.com'', short_code = js ''CCCCCC'',
             created_at = 2000, click_count = 0, updated_at = 2000\<rparr>])"
    by (rule example_shorten)
  have app: "example_db 3 = example_db 2 @ [example_row 2]"
    by (simp add: example_db_2 example_db_3)
  have fresh: "short_code (example_row 2) \<notin> set (map short_code (example_db 2))"
    unfolding example_db_2 example_row_0 example_row_1 example_row_2
    by (simp add: js_simps)
  from store_invariants [OF example_reachable] example_reachable example_step_2 shorten app fresh
  show ?thesis by (simp only: simp_thms)
qed

section \<open>UrlController.redirectToOriginalUrl\<close>

text \<open>
  C9 (as amended). For a request \<open>GET /:shortCode\<close>, whose route parameter is not
  empty, on a table whose short codes are unique: if a record with the short code exists
  and its click count is below 2147483647, the largest value of the column, the response
  is a 301 redirect to the record's \<open>originalUrl\<close> and the click count of that record,
  and nothing else, is increased by 1; if no record has the short code, the response is
  the 404 page and the store is unchanged. A code that the shorten operation has just
  created, redirected once, shows \<open>clickCount = 1\<close> on the stats endpoint.
\<close>

theorem redirect_spec:
  assumes "distinct (map short_code db)" "param_shortCode req \<noteq> []"
  shows
    "(\<forall>i<length db. short_code (db ! i) = param_shortCode req \<and> click_count (db ! i) < INT4_MAX \<longrightarrow>
        UrlController_redirectToOriginalUrl req db =
          (Redirect 301 (original_url (db ! i)),
           db[i := (db ! i)\<lparr>click_count := click_count (db ! i) + 1\<rparr>]))
     \<and> (param_shortCode req \<notin> set (map short_code db) \<longrightarrow>
          UrlController_redirectToOriginalUrl req db = (NotFoundPage 404, db))
     \<and> (\<forall>L env creq db0 i ou su ca db1.
          UrlController_createShortUrl L env creq db0
            = (Json 201 (Created i ou (param_shortCode req) su ca), db1) \<longrightarrow>
          (\<exists>db2 u su'.
             UrlController_redirectToOriginalUrl req db1 = (Redirect 301 ou, db2) \<and>
             UrlController_getUrlStats req db2 = (Json 200 (UrlStats u su'), db2) \<and>
             shortCode u = param_shortCode req \<and> originalUrl u = ou \<and> clickCount u = 1))"
proof (intro conjI allI impI)
  fix i assume "i < length db"
    "short_code (db ! i) = param_shortCode req \<and> click_count (db ! i) < INT4_MAX"
  with assms show "UrlController_redirectToOriginalUrl req db =
          (Redirect 301 (original_url (db ! i)),
           db[i := (db ! i)\<lparr>click_count := click_count (db ! i) + 1\<rparr>])"
    by (simp add: UrlController_redirectToOriginalUrl_def Let_def get_at increment_at
        row_to_Url_def)
next
  assume "param_shortCode req \<notin> set (map short_code db)"
  then have "Database_getUrlByShortCode db (param_shortCode req) = None"
    by (simp add: getUrlByShortCode_None_iff)
  with assms show "UrlController_redirectToOriginalUrl req db = (NotFoundPage 404, db)"
    by (simp add: UrlController_redirectToOriginalUrl_def Let_def)
next
  fix L env creq db0 i ou su ca db1
  let ?code = "param_shortCode req"
  assume created: "UrlController_createShortUrl L env creq db0
            = (Json 201 (Created i ou ?code su ca), db1)"
  let ?row = "\<lparr>row_id = nextval env, original_url = ou, short_code = ?code,
                 created_at = current_timestamp env, click_count = 0,
                 updated_at = current_timestamp env\<rparr>"
  from createShortUrl_cases [of L env creq db0] created
  have fresh: "?code \<notin> set (map short_code db0)" and db1: "db1 = db0 @ [?row]"
    by auto
  let ?row' = "?row\<lparr>click_count := 1\<rparr>"
  let ?db2 = "db0 @ [?row']"
  have get1: "Database_getUrlByShortCode db1 ?code = Some (row_to_Url ?row)"
    unfolding db1 by (rule get_appended [OF fresh]) simp
  have inc: "Database_incrementClickCount db1 ?code = Inr (Some (row_to_Url ?row'), ?db2)"
    unfolding db1 using increment_appended [OF fresh, of ?row]
    by (simp add: INT4_MAX_def)
  have get2: "Database_getUrlByShortCode ?db2 ?code = Some (row_to_Url ?row')"
    by (rule get_appended [OF fresh]) simp
  have "UrlController_redirectToOriginalUrl req db1 = (Redirect 301 ou, ?db2)"
    using assms(2) get1 inc
    by (simp add: UrlController_redirectToOriginalUrl_def Let_def row_to_Url_def)
  moreover have "UrlController_getUrlStats req ?db2 =
      (Json 200 (UrlStats (row_to_Url ?row') (baseUrl req @ js ''/'' @ ?code)), ?db2)"
    using assms(2) get2
    by (simp add: UrlController_getUrlStats_def Let_def row_to_Url_def)
  ultimately show "\<exists>db2 u su'.
             UrlController_redirectToOriginalUrl req db1 = (Redirect 301 ou, db2) \<and>
             UrlController_getUrlStats req db2 = (Json 200 (UrlStats u su'), db2) \<and>
             shortCode u = param_shortCode req \<and> originalUrl u = ou \<and> clickCount u = 1"
    by (auto simp: row_to_Url_def)
qed

theorem redirect_spec_witness:
  "distinct (map short_code (example_db 2)) \<and> param_shortCode example_request \<noteq> []
   \<and> UrlController_redirectToOriginalUrl example_request (example_db 2) =
       (Redirect 301 (js ''https://example.com''),
        [(example_row 0)\<lparr>click_count := 1\<rparr>, example_row 1])
   \<and> UrlController_redirectToOriginalUrl (example_request\<lparr>param_shortCode := js ''zzzzzz''\<rparr>)
         (example_db 2) = (NotFoundPage 404, example_db 2)
   \<and> (\<exists>db2 u su.
        UrlController_redirectToOriginalUrl (example_request\<lparr>param_shortCode := js ''CCCCCC''\<rparr>)
          (example_db 2 @
           [\<lparr>row_id = 11, original_url = js ''https://example.com'', short_code = js ''CCCCCC'',
             created_at = 2000, click_count = 0, updated_at = 2000\<rparr>])
          = (Redirect 301 (js ''https://example.com''), db2)
        \<and> UrlController_getUrlStats (example_request\<lparr>param_shortCode := js ''CCCCCC''\<rparr>) db2
          = (Json 200 (UrlStats u su), db2)
        \<and> clickCount u = 1)"
proof -
  have nonempty: "param_shortCode example_request \<noteq> []"
    "param_shortCode (example_request\<lparr>param_shortCode := js ''zzzzzz''\<rparr>) \<noteq> []"
    "param_shortCode (example_request\<lparr>param_shortCode := js ''CCCCCC''\<rparr>) \<noteq> []"
    by (simp_all add: example_request_def js_simps)
  have present: "(0::nat) < length (example_db 2)"
    "short_code (example_db 2 ! 0) = param_shortCode example_request"
    "click_count (example_db 2 ! 0) < INT4_MAX"
    by (simp_all add: example_db_2 example_row_0 example_param INT4_MAX_def)
  from redirect_spec [OF example_db_2_distinct nonempty(1)] present
  have "UrlController_redirectToOriginalUrl example_request (example_db 2) =
          (Redirect 301 (original_url (example_db 2 ! 0)),
           (example_db 2)[0 := (example_db 2 ! 0)\<lparr>click_count := click_count (example_db 2 ! 0) + 1\<rparr>])"
    by blast
  then have found: "UrlController_redirectToOriginalUrl example_request (example_db 2) =
       (Redirect 301 (js ''https://example.com''),
        [(example_row 0)\<lparr>click_count := 1\<rparr>, example_row 1])"
    by (simp add: example_db_2 example_row_0)
  have absent: "param_shortCode (example_request\<lparr>param_shortCode := js ''zzzzzz''\<rparr>)
      \<notin> set (map short_code (example_db 2))"
    unfolding example_db_2 example_row_0 example_row_1 by (simp add: js_simps)
  from redirect_spec [OF example_db_2_distinct nonempty(2)] absent
  have missing: "UrlController_redirectToOriginalUrl (example_request\<lparr>param_shortCode := js ''zzzzzz''\<rparr>)
         (example_db 2) = (NotFoundPage 404, example_db 2)"
    by blast
  have "UrlController_createShortUrl example_libs example_env example_request (example_db 2)
     = (Json 201 (Created 11 (js ''https://example.com'')
          (param_shortCode (example_request\<lparr>param_shortCode := js ''CCCCCC''\<rparr>))
          (js ''https://sho.rt/CCCCCC'') 2000),
        example_db 2 @
         [\<lparr>row_id = 11, original_url = js ''https://example.com'', short_code = js ''CCCCCC'',
           created_at = 2000, click_count = 0, updated_at = 2000\<rparr>])"
    using example_shorten by simp
  with redirect_spec [OF example_db_2_distinct nonempty(3)]
  have fresh: "\<exists>db2 u su.
        UrlController_redirectToOriginalUrl (example_request\<lparr>param_shortCode := js ''CCCCCC''\<rparr>)
          (example_db 2 @
           [\<lparr>row_id = 11, original_url = js ''https://example.com'', short_code = js ''CCCCCC'',
             created_at = 2000, click_count = 0, updated_at = 2000\<rparr>])
          = (Redirect 301 (js ''https://example.com''), db2)
        \<and> UrlController_getUrlStats (example_request\<lparr>param_shortCode := js ''CCCCCC''\<rparr>) db2
          = (Json 200 (UrlStats u su), db2)
        \<and> clickCount u = 1"
    by blast
  from example_db_2_distinct nonempty(1) found missing fresh show ?thesis
    by (simp only: simp_thms)
qed

text \<open>
  A record with the short code exists, its click count is 2147483647, and the response is
  not a redirect: the increment throws, the handler answers 500, and the count is not
  increased.
\<close>

theorem redirect_claim_counterexample:
  "short_code (saturated_db ! 0) = param_shortCode example_request
   \<and> UrlController_redirectToOriginalUrl example_request saturated_db
       = (Json 500 (Failure Internal_server_error), saturated_db)"
  by (simp add: saturated_db_def example_row_0 example_param
      UrlController_redirectToOriginalUrl_def Database_getUrlByShortCode_def
      Database_incrementClickCount_def INT4_MAX_def Let_def js_simps)

section \<open>UrlController.getAllUrls\<close>

text \<open>
  C10 (as amended). For every page of at least 1 and every limit of at least 1 whose
  product is at most \<open>2^53\<close>, so that the numbers of the handler are exact, the list
  operation queries the store with the limit and the offset \<open>(page - 1) * limit\<close>; the
  records it returns are those at the positions from the offset on, at most \<open>limit\<close>
  of them, of an ordering of all records by \<open>createdAt\<close>, newest first; and the
  pagination object has \<open>totalPages\<close> equal to the ceiling of \<open>total / limit\<close>,
  \<open>hasNext\<close> equal to \<open>page * limit < total\<close> and \<open>hasPrev\<close> equal to
  \<open>page > 1\<close>, where \<open>total\<close> is the number of all records. The store is unchanged.
\<close>

theorem getAllUrls_spec:
  assumes "1 \<le> p" "1 \<le> l" "p * l \<le> 2 ^ 53"
    and "query_page req = Num p" "query_limit req = Num l"
  shows
    "\<exists>ordered urls.
        set ordered = set db \<and> length ordered = length db
      \<and> sorted_wrt (\<lambda>a b. created_at b \<le> created_at a) ordered
      \<and> urls = map row_to_Url (take (nat l) (drop (nat ((p - 1) * l)) ordered))
      \<and> Database_getAllUrls db (Num l) (Num ((p - 1) * l)) = Inr (urls, int (length db))
      \<and> UrlController_getAllUrls req db =
          (Json 200 (UrlList (map (\<lambda>u. (u, baseUrl req @ js ''/'' @ shortCode u)) urls)
             \<lparr>page = Num p, limit = Num l, total_count = int (length db),
              totalPages = Num \<lceil>real (length db) / real_of_int l\<rceil>,
              hasNext = (p * l < int (length db)),
              hasPrev = (1 < p)\<rparr>), db)
      \<and> int (length urls) \<le> l
      \<and> sorted_wrt (\<lambda>a b. createdAt b \<le> createdAt a) urls"
proof -
  let ?ordered = "sort_key (\<lambda>row. - created_at row) db"
  let ?rows = "take (nat l) (drop (nat ((p - 1) * l)) ?ordered)"
  let ?urls = "map row_to_Url ?rows"
  from assms(1,2) have off: "0 \<le> (p - 1) * l" by simp
  from assms(1,2) have "(p - 1) * l \<le> p * l" by (simp add: mult_right_mono)
  with assms(3) have off_le: "(p - 1) * l \<le> 2 ^ 53" by simp
  from assms(1,2) have "p * 1 \<le> p * l" by (intro mult_left_mono) simp_all
  with assms(3) have p_le: "p \<le> 2 ^ 53" by simp
  from assms(1,2) have "1 * l \<le> p * l" by (intro mult_right_mono) simp_all
  with assms(3) have l_le: "l \<le> 2 ^ 53" by simp
  have big: "(2::int) ^ 53 \<le> INT8_MAX" by (simp add: INT8_MAX_def)
  have n1: "js_minus (Num p) (Num 1) = Num (p - 1)"
    using assms(1) p_le by (simp add: number_exact)
  have n2: "js_times (Num (p - 1)) (Num l) = Num ((p - 1) * l)"
    using off off_le by (simp add: number_exact)
  have n3: "js_times (Num p) (Num l) = Num (p * l)"
    using assms(1,2,3) by (simp add: number_exact)
  have db: "Database_getAllUrls db (Num l) (Num ((p - 1) * l)) = Inr (?urls, int (length db))"
    using assms(2) l_le off off_le big by (intro getAllUrls_page) simp_all
  have ctl: "UrlController_getAllUrls req db =
          (Json 200 (UrlList (map (\<lambda>u. (u, baseUrl req @ js ''/'' @ shortCode u)) ?urls)
             \<lparr>page = Num p, limit = Num l, total_count = int (length db),
              totalPages = Num \<lceil>real (length db) / real_of_int l\<rceil>,
              hasNext = (p * l < int (length db)),
              hasPrev = (1 < p)\<rparr>), db)"
    using assms(1,2,4,5) db
    by (simp add: UrlController_getAllUrls_def or_default_def Let_def n1 n2 n3
        del: js_times.simps js_minus.simps)
  have len: "int (length ?urls) \<le> l"
    using assms by simp
  have "sorted_wrt (\<lambda>a b. created_at b \<le> created_at a) ?rows"
    by (intro sorted_wrt_take sorted_wrt_drop newest_first_sorted)
  then have srt: "sorted_wrt (\<lambda>a b. createdAt b \<le> createdAt a) ?urls"
    by (simp add: sorted_wrt_map row_to_Url_def)
  have "set ?ordered = set db \<and> length ?ordered = length db" by simp
  with newest_first_sorted db ctl len srt show ?thesis by blast
qed

theorem getAllUrls_spec_witness:
  "(1::int) \<le> 2 \<and> (1::int) \<le> 3 \<and> (2::int) * 3 \<le> 2 ^ 53
   \<and> query_page example_request = Num 2 \<and> query_limit example_request = Num 3
   \<and> UrlController_getAllUrls example_request (example_db 5) =
       (Json 200 (UrlList
          [(row_to_Url (example_row 1), js ''https://sho.rt/BBBBBB''),
           (row_to_Url (example_row 0), js ''https://sho.rt/AAAAAA'')]
          \<lparr>page = Num 2, limit = Num 3, total_count = 5, totalPages = Num 2,
           hasNext = False, hasPrev = True\<rparr>), example_db 5)"
proof -
  have q: "query_page example_request = Num 2" "query_limit example_request = Num 3"
    by (simp_all add: example_request_def)
  have len: "length (example_db 5) = 5" by (simp add: example_db_def)
  have base: "baseUrl example_request = js ''https://sho.rt''"
    by (simp add: baseUrl_def example_request_def template_def js_simps)
  have h: "(1::int) \<le> 2" "(1::int) \<le> 3" "(2::int) * 3 \<le> 2 ^ 53" by simp_all
  have "\<exists>urls. Database_getAllUrls (example_db 5) (Num 3) (Num ((2 - 1) * 3))
            = Inr (urls, int (length (example_db 5)))
      \<and> UrlController_getAllUrls example_request (example_db 5) =
          (Json 200 (UrlList (map (\<lambda>u. (u, baseUrl example_request @ js ''/'' @ shortCode u)) urls)
             \<lparr>page = Num 2, limit = Num 3, total_count = int (length (example_db 5)),
              totalPages = Num \<lceil>real (length (example_db 5)) / real_of_int 3\<rceil>,
              hasNext = (2 * 3 < int (length (example_db 5))),
              hasPrev = (1 < (2::int))\<rparr>), example_db 5)"
    using getAllUrls_spec [OF h q, of "example_db 5"] by blast
  then obtain urls where
    urls: "Database_getAllUrls (example_db 5) (Num 3) (Num ((2 - 1) * 3))
            = Inr (urls, int (length (example_db 5)))"
    and ctl: "UrlController_getAllUrls example_request (example_db 5) =
          (Json 200 (UrlList (map (\<lambda>u. (u, baseUrl example_request @ js ''/'' @ shortCode u)) urls)
             \<lparr>page = Num 2, limit = Num 3, total_count = int (length (example_db 5)),
              totalPages = Num \<lceil>real (length (example_db 5)) / real_of_int 3\<rceil>,
              hasNext = (2 * 3 < int (length (example_db 5))),
              hasPrev = (1 < (2::int))\<rparr>), example_db 5)"
    by blast
  from urls have "urls = [row_to_Url (example_row 1), row_to_Url (example_row 0)]"
    by (simp add: example_page)
  with ctl have "UrlController_getAllUrls example_request (example_db 5) =
       (Json 200 (UrlList
          [(row_to_Url (example_row 1), js ''https://sho.rt/BBBBBB''),
           (row_to_Url (example_row 0), js ''https://sho.rt/AAAAAA'')]
          \<lparr>page = Num 2, limit = Num 3, total_count = 5, totalPages = Num 2,
           hasNext = False, hasPrev = True\<rparr>), example_db 5)"
    by (simp add: len base example_row_0 example_row_1 row_to_Url_def js_simps
        del: One_nat_def)
  with q show ?thesis by simp
qed

text \<open>
  With page 1 and the limit \<open>2^63\<close>, and with page and limit both \<open>2^32\<close>, the
  query is rejected, as the limit or the offset does not fit a 64-bit integer, and the
  response is the error 500, not a page of records.
\<close>

theorem getAllUrls_claim_counterexample:
  "query_page huge_limit_request = Num 1
   \<and> query_limit huge_limit_request = Num (2 ^ 63)
   \<and> UrlController_getAllUrls huge_limit_request (example_db 5)
       = (Json 500 (Failure Internal_server_error), example_db 5)
   \<and> query_page huge_offset_request = Num (2 ^ 32)
   \<and> query_limit huge_offset_request = Num (2 ^ 32)
   \<and> UrlController_getAllUrls huge_offset_request (example_db 5)
       = (Json 500 (Failure Internal_server_error), example_db 5)"
proof -
  have "query_page huge_limit_request = Num 1" "query_limit huge_limit_request = Num (2 ^ 63)"
    "query_page huge_offset_request = Num (2 ^ 32)" "query_limit huge_offset_request = Num (2 ^ 32)"
    by (simp_all add: huge_limit_request_def huge_offset_request_def)
  with huge_limit_500 [of "example_db 5"] huge_offset_500 [of "example_db 5"]
  show ?thesis by (simp only: simp_thms)
qed

end
